theory Spec2Isabelle
  imports Complex_Main "HOL-Library.Multiset" "HOL-Library.Product_Lexorder"
begin

section \<open>Python values\<close>

text \<open>
  The analyzer works on decoded JSON: the body of an HTTP response and the raw post
  records in it are Python dicts, lists, strings, integers, booleans and \<^verbatim>\<open>None\<close>.
  One \<^typ>\<open>char\<close> stands for one character of a Python string. JSON floats are
  not modelled. A dict is an association list in insertion order; its keys are distinct.
\<close>

datatype json =
    JNull
  | JBool bool
  | JInt int
  | JStr string
  | JList "json list"
  | JDict "(string \<times> json) list"

text \<open>The exceptions the analyzer can meet. Each raise is a value \<open>Inl e\<close>.\<close>

datatype error =
    AttributeError
  | TypeError
  | ValueError
  | KeyError string
  | IndexError
  | NotAuthenticated

definition bind :: "error + 'a \<Rightarrow> ('a \<Rightarrow> error + 'b) \<Rightarrow> error + 'b" where
  "bind m k = (case m of Inl e \<Rightarrow> Inl e | Inr x \<Rightarrow> k x)"

text \<open>\<^verbatim>\<open>bool(x)\<close>, as used by \<^verbatim>\<open>if x:\<close> and \<^verbatim>\<open>not x\<close>.\<close>

fun truthy :: "json \<Rightarrow> bool" where
  "truthy JNull = False"
| "truthy (JBool b) = b"
| "truthy (JInt i) = (i \<noteq> 0)"
| "truthy (JStr s) = (s \<noteq> [])"
| "truthy (JList xs) = (xs \<noteq> [])"
| "truthy (JDict kvs) = (kvs \<noteq> [])"

text \<open>\<^verbatim>\<open>x.get(key, default)\<close>: only a dict has the method.\<close>

fun py_get :: "json \<Rightarrow> string \<Rightarrow> json \<Rightarrow> error + json" where
  "py_get (JDict kvs) key dflt = Inr (case map_of kvs key of Some v \<Rightarrow> v | None \<Rightarrow> dflt)"
| "py_get _ key dflt = Inl AttributeError"

text \<open>
  \<^verbatim>\<open>for x in v\<close> and \<^verbatim>\<open>list.extend(v)\<close>: a list gives its elements, a dict its keys,
  a string its characters; anything else is not iterable.
\<close>

fun py_iter :: "json \<Rightarrow> error + json list" where
  "py_iter (JList xs) = Inr xs"
| "py_iter (JDict kvs) = Inr (map (\<lambda>kv. JStr (fst kv)) kvs)"
| "py_iter (JStr s) = Inr (map (\<lambda>c. JStr [c]) s)"
| "py_iter _ = Inl TypeError"

text \<open>\<^verbatim>\<open>len(v)\<close>.\<close>

fun py_len :: "json \<Rightarrow> error + nat" where
  "py_len (JStr s) = Inr (length s)"
| "py_len (JList xs) = Inr (length xs)"
| "py_len (JDict kvs) = Inr (length kvs)"
| "py_len _ = Inl TypeError"

text \<open>\<^verbatim>\<open>xs[:n]\<close> for an integer \<open>n\<close>: a negative \<open>n\<close> counts from the end.\<close>

definition py_slice_to :: "'a list \<Rightarrow> int \<Rightarrow> 'a list" where
  "py_slice_to xs n = (if 0 \<le> n then take (nat n) xs else take (length xs - nat (- n)) xs)"

section \<open>Fetcher\<close>

text \<open>
  \<^verbatim>\<open>fetch_posts\<close> sends one request per turn of its \<^verbatim>\<open>while True\<close> loop. What the
  server does with the request (the cursor included) is outside the program, so a run is
  determined by the responses that come back, in order: each is either a
  \<^verbatim>\<open>requests.exceptions.RequestException\<close> (raised by the request, by
  \<^verbatim>\<open>raise_for_status\<close> or, in the releases of \<^verbatim>\<open>requests\<close> since 2.27, by the decoding of
  the body) or the decoded body.
  The loop is a recursion over that sequence; on the empty sequence the loop is still
  waiting for a response and has not returned, which is \<open>None\<close>. An exception other than
  \<^verbatim>\<open>RequestException\<close> is not caught by \<^verbatim>\<open>fetch_posts\<close>: \<open>Some (Inl e)\<close>.
\<close>

datatype response = RequestException | Body json

text \<open>
  \<^verbatim>\<open>limit and total_fetched >= limit\<close>: \<^verbatim>\<open>None\<close> and \<open>0\<close> are both false. When the
  test holds the result is the limit to slice with.
\<close>

definition limit_reached :: "int option \<Rightarrow> nat \<Rightarrow> int option" where
  "limit_reached limit total_fetched =
     (case limit of
        None \<Rightarrow> None
      | Some l \<Rightarrow> if l \<noteq> 0 \<and> l \<le> int total_fetched then Some l else None)"

fun fetch_loop :: "int option \<Rightarrow> json list \<Rightarrow> nat \<Rightarrow> response list \<Rightarrow> (error + json list) option" where
  "fetch_loop limit posts total_fetched [] = None"
| "fetch_loop limit posts total_fetched (RequestException # rest) = Some (Inr posts)"
| "fetch_loop limit posts total_fetched (Body data # rest) =
     (case py_get data ''records'' (JList []) of
        Inl e \<Rightarrow> Some (Inl e)
      | Inr batch_posts \<Rightarrow>
          if \<not> truthy batch_posts then Some (Inr posts)
          else (case py_iter batch_posts of
              Inl e \<Rightarrow> Some (Inl e)
            | Inr items \<Rightarrow>
                (let posts' = posts @ items;
                     total_fetched' = total_fetched + length items
                 in case py_get data ''cursor'' JNull of
                      Inl e \<Rightarrow> Some (Inl e)
                    | Inr cursor \<Rightarrow>
                        if \<not> truthy cursor then Some (Inr posts')
                        else (case limit_reached limit total_fetched' of
                            Some l \<Rightarrow> Some (Inr (py_slice_to posts' l))
                          | None \<Rightarrow> fetch_loop limit posts' total_fetched' rest))))"

text \<open>
  \<^verbatim>\<open>self.access_jwt\<close> is \<^verbatim>\<open>None\<close> until \<^verbatim>\<open>authenticate\<close> has stored the token of the
  session; without it \<^verbatim>\<open>fetch_posts\<close> raises before the first request.
\<close>

definition fetch_posts :: "json \<Rightarrow> int option \<Rightarrow> response list \<Rightarrow> (error + json list) option" where
  "fetch_posts access_jwt limit responses =
     (if \<not> truthy access_jwt then Some (Inl NotAuthenticated)
      else fetch_loop limit [] 0 responses)"

text \<open>The records one page adds to \<^verbatim>\<open>posts\<close>.\<close>

definition page_records :: "response \<Rightarrow> json list" where
  "page_records r =
     (case r of
        RequestException \<Rightarrow> []
      | Body data \<Rightarrow>
          (case py_get data ''records'' (JList []) of
             Inl e \<Rightarrow> []
           | Inr batch_posts \<Rightarrow> (case py_iter batch_posts of Inl e \<Rightarrow> [] | Inr items \<Rightarrow> items)))"

section \<open>Normalizer\<close>

text \<open>
  A parsed timestamp. \<^verbatim>\<open>datetime.fromisoformat\<close> belongs to the Python library and what
  it accepts depends on the interpreter's version, so \<^verbatim>\<open>parse_posts\<close> takes it as a
  parameter: \<open>None\<close> is its \<^verbatim>\<open>ValueError\<close>. The timestamps of one table are taken to
  carry the same UTC offset (the service writes \<^verbatim>\<open>Z\<close>), so a timestamp is its calendar
  fields.
\<close>

record datetime =
  dt_year :: nat
  dt_month :: nat
  dt_day :: nat
  dt_hour :: nat
  dt_minute :: nat
  dt_second :: nat
  dt_microsecond :: nat

text \<open>\<^verbatim>\<open>date.weekday()\<close>, Monday is 0, through the proleptic Gregorian ordinal.\<close>

definition is_leap :: "nat \<Rightarrow> bool" where
  "is_leap y = (y mod 4 = 0 \<and> (y mod 100 \<noteq> 0 \<or> y mod 400 = 0))"

definition days_before_year :: "nat \<Rightarrow> nat" where
  "days_before_year y = (y - 1) * 365 + (y - 1) div 4 - (y - 1) div 100 + (y - 1) div 400"

definition days_in_month :: "nat \<Rightarrow> nat \<Rightarrow> nat" where
  "days_in_month y m =
     (if m = 2 then (if is_leap y then 29 else 28)
      else if m \<in> {4, 6, 9, 11} then 30 else 31)"

definition days_before_month :: "nat \<Rightarrow> nat \<Rightarrow> nat" where
  "days_before_month y m = sum_list (map (days_in_month y) [1..<m])"

definition ymd2ord :: "nat \<Rightarrow> nat \<Rightarrow> nat \<Rightarrow> nat" where
  "ymd2ord y m d = days_before_year y + days_before_month y m + d"

definition weekday :: "datetime \<Rightarrow> nat" where
  "weekday t = (ymd2ord (dt_year t) (dt_month t) (dt_day t) + 6) mod 7"

text \<open>\<^verbatim>\<open>timestamp.date()\<close>: year, month, day.\<close>

definition date_of :: "datetime \<Rightarrow> nat \<times> nat \<times> nat" where
  "date_of t = (dt_year t, dt_month t, dt_day t)"

text \<open>\<^verbatim>\<open>created_at.replace("Z", "+00:00")\<close>.\<close>

definition replace_Z :: "string \<Rightarrow> string" where
  "replace_Z s = concat (map (\<lambda>c. if c = CHR ''Z'' then ''+00:00'' else [c]) s)"

text \<open>
  Lines 133 to 137. A falsy \<^verbatim>\<open>createdAt\<close> (absent, so the default \<^verbatim>\<open>""\<close>, or empty,
  \<^verbatim>\<open>None\<close>, \<open>0\<close>, \<^verbatim>\<open>False\<close>) gives no timestamp. A truthy one must be a string, which
  alone has \<^verbatim>\<open>replace\<close>, and \<^verbatim>\<open>fromisoformat\<close> must accept it.
\<close>

definition parse_timestamp :: "(string \<Rightarrow> datetime option) \<Rightarrow> json \<Rightarrow> error + datetime option" where
  "parse_timestamp fromisoformat created_at =
     (if truthy created_at then
        (case created_at of
           JStr s \<Rightarrow>
             (case fromisoformat (replace_Z s) of
                None \<Rightarrow> Inl ValueError
              | Some t \<Rightarrow> Inr (Some t))
         | _ \<Rightarrow> Inl AttributeError)
      else Inr None)"

text \<open>
  \<^verbatim>\<open>str.isspace\<close> on one character, for the code points below 256, and \<^verbatim>\<open>text.split()\<close>:
  the maximal runs of characters that are not whitespace. \<open>w\<close> is the word being read.
\<close>

definition isspace :: "char \<Rightarrow> bool" where
  "isspace c = ((of_char c :: nat) \<in> {9, 10, 11, 12, 13, 28, 29, 30, 31, 32, 133, 160})"

fun split_from :: "string \<Rightarrow> string \<Rightarrow> string list" where
  "split_from w [] = (if w = [] then [] else [w])"
| "split_from w (c # cs) =
     (if isspace c then (if w = [] then split_from [] cs else w # split_from [] cs)
      else split_from (w @ [c]) cs)"

definition split :: "string \<Rightarrow> string list" where
  "split s = split_from [] s"

fun py_split :: "json \<Rightarrow> error + string list" where
  "py_split (JStr s) = Inr (split s)"
| "py_split _ = Inl AttributeError"

text \<open>The loop over the features of the facets, lines 148 to 155.\<close>

fun foldM :: "('s \<Rightarrow> 'a \<Rightarrow> error + 's) \<Rightarrow> 's \<Rightarrow> 'a list \<Rightarrow> error + 's" where
  "foldM f s [] = Inr s"
| "foldM f s (x # xs) = bind (f s x) (\<lambda>s'. foldM f s' xs)"

fun feature_step :: "json list \<times> json list \<times> json list \<Rightarrow> json \<Rightarrow> error + json list \<times> json list \<times> json list" where
  "feature_step (mentions, hashtags, links) feature =
     bind (py_get feature ''$type'' JNull) (\<lambda>ty.
       if ty = JStr ''app.bsky.richtext.facet#mention'' then
         bind (py_get feature ''did'' (JStr [])) (\<lambda>v. Inr (mentions @ [v], hashtags, links))
       else if ty = JStr ''app.bsky.richtext.facet#tag'' then
         bind (py_get feature ''tag'' (JStr [])) (\<lambda>v. Inr (mentions, hashtags @ [v], links))
       else if ty = JStr ''app.bsky.richtext.facet#link'' then
         bind (py_get feature ''uri'' (JStr [])) (\<lambda>v. Inr (mentions, hashtags, links @ [v]))
       else Inr (mentions, hashtags, links))"

definition facet_step :: "json list \<times> json list \<times> json list \<Rightarrow> json \<Rightarrow> error + json list \<times> json list \<times> json list" where
  "facet_step acc facet =
     bind (py_get facet ''features'' (JList [])) (\<lambda>fs.
     bind (py_iter fs) (\<lambda>features. foldM feature_step acc features))"

text \<open>
  One row of the table: the dict \<^verbatim>\<open>parsed_post\<close> of lines 166 to 185. Its key \<^verbatim>\<open>text\<close>
  is the field \<open>post_text\<close>. The values taken from the raw post are whatever JSON the
  server sent.
\<close>

record parsed_post =
  uri :: json
  cid :: json
  post_text :: json
  created_at :: "datetime option"
  char_count :: nat
  word_count :: nat
  mentions :: "json list"
  hashtags :: "json list"
  links :: "json list"
  mention_count :: nat
  hashtag_count :: nat
  link_count :: nat
  has_image :: bool
  has_external :: bool
  is_reply :: bool
  hour :: "nat option"
  day_of_week :: "nat option"
  date :: "(nat \<times> nat \<times> nat) option"

text \<open>
  The body of the \<^verbatim>\<open>try\<close> of \<^verbatim>\<open>parse_posts\<close> for one raw post, in the order of the
  source: first the timestamp (lines 130 to 137), then the other fields and the dict
  (lines 140 to 185). \<open>Inl e\<close> is the exception that the \<^verbatim>\<open>except Exception\<close> of line 189
  catches.
\<close>

definition parse_fields :: "json \<Rightarrow> json \<Rightarrow> datetime option \<Rightarrow> error + parsed_post" where
  "parse_fields post value timestamp =
     bind (py_get value ''text'' (JStr [])) (\<lambda>body.
     bind (py_get value ''facets'' (JList [])) (\<lambda>facets.
     bind (py_iter facets) (\<lambda>facet_list.
     bind (foldM facet_step ([], [], []) facet_list) (\<lambda>(ms, hs, ls).
     bind (py_get value ''embed'' (JDict [])) (\<lambda>embed.
     bind (py_get embed ''$type'' JNull) (\<lambda>embed_type.
     bind (py_get value ''reply'' (JDict [])) (\<lambda>reply.
     bind (py_get post ''uri'' (JStr [])) (\<lambda>u.
     bind (py_get post ''cid'' (JStr [])) (\<lambda>c.
     bind (py_len body) (\<lambda>n.
     bind (if truthy body then bind (py_split body) (\<lambda>ws. Inr (length ws)) else Inr 0) (\<lambda>w.
       Inr \<lparr>uri = u, cid = c, post_text = body, created_at = timestamp,
            char_count = n, word_count = w,
            mentions = ms, hashtags = hs, links = ls,
            mention_count = length ms, hashtag_count = length hs, link_count = length ls,
            has_image = (embed_type = JStr ''app.bsky.embed.images''),
            has_external = (embed_type = JStr ''app.bsky.embed.external''),
            is_reply = truthy reply,
            hour = map_option dt_hour timestamp,
            day_of_week = map_option weekday timestamp,
            date = map_option date_of timestamp\<rparr>)))))))))))"

definition parse_post :: "(string \<Rightarrow> datetime option) \<Rightarrow> json \<Rightarrow> error + parsed_post" where
  "parse_post fromisoformat post =
     bind (py_get post ''value'' (JDict [])) (\<lambda>value.
     bind (py_get value ''createdAt'' (JStr [])) (\<lambda>created.
     bind (parse_timestamp fromisoformat created) (\<lambda>timestamp.
       parse_fields post value timestamp)))"

text \<open>The loop of \<^verbatim>\<open>parse_posts\<close>: a post that raises is skipped, the others are appended.\<close>

fun parse_rows :: "(string \<Rightarrow> datetime option) \<Rightarrow> json list \<Rightarrow> parsed_post list" where
  "parse_rows fromisoformat [] = []"
| "parse_rows fromisoformat (post # rest) =
     (case parse_post fromisoformat post of
        Inl e \<Rightarrow> parse_rows fromisoformat rest
      | Inr parsed \<Rightarrow> parsed # parse_rows fromisoformat rest)"

text \<open>
  \<^verbatim>\<open>pd.DataFrame(parsed_posts)\<close>: the columns are the keys of the dicts, so the frame of an
  empty list has no column at all. \<^verbatim>\<open>df[name]\<close> raises \<^verbatim>\<open>KeyError\<close> for a name that is
  not a column.
\<close>

record dataframe =
  columns :: "string list"
  rows :: "parsed_post list"

definition post_keys :: "string list" where
  "post_keys = [''uri'', ''cid'', ''text'', ''created_at'', ''char_count'', ''word_count'',
     ''mentions'', ''hashtags'', ''links'', ''mention_count'', ''hashtag_count'', ''link_count'',
     ''has_image'', ''has_external'', ''is_reply'', ''hour'', ''day_of_week'', ''date'']"

definition DataFrame :: "parsed_post list \<Rightarrow> dataframe" where
  "DataFrame parsed_posts =
     \<lparr>columns = (if parsed_posts = [] then [] else post_keys), rows = parsed_posts\<rparr>"

definition parse_posts :: "(string \<Rightarrow> datetime option) \<Rightarrow> json list \<Rightarrow> dataframe" where
  "parse_posts fromisoformat raw_posts = DataFrame (parse_rows fromisoformat raw_posts)"

section \<open>Aggregator\<close>

text \<open>
  \<^verbatim>\<open>df[name]\<close> as the list of the values of one field, \<^verbatim>\<open>df.empty\<close> (true when either
  axis has length 0) and \<^verbatim>\<open>len(df)\<close> (the number of rows).
\<close>

definition column :: "dataframe \<Rightarrow> string \<Rightarrow> (parsed_post \<Rightarrow> 'a) \<Rightarrow> error + 'a list" where
  "column df name field =
     (if name \<in> set (columns df) then Inr (map field (rows df)) else Inl (KeyError name))"

definition df_empty :: "dataframe \<Rightarrow> bool" where
  "df_empty df = (rows df = [] \<or> columns df = [])"

definition df_len :: "dataframe \<Rightarrow> nat" where
  "df_len df = length (rows df)"

text \<open>The values of a column that are not null: reductions and \<^verbatim>\<open>groupby\<close> skip nulls.\<close>

fun dropna :: "'a option list \<Rightarrow> 'a list" where
  "dropna [] = []"
| "dropna (None # xs) = dropna xs"
| "dropna (Some x # xs) = x # dropna xs"

text \<open>
  Timestamps of one offset are ordered as their fields are, from the year down.
  \<^verbatim>\<open>min()\<close> and \<^verbatim>\<open>max()\<close> of a column with no value that is not null are themselves
  null (\<open>None\<close>): \<^verbatim>\<open>nan\<close> for the column of \<^verbatim>\<open>None\<close>s that \<^verbatim>\<open>pd.DataFrame\<close> builds.
\<close>

definition dt_key :: "datetime \<Rightarrow> nat \<times> nat \<times> nat \<times> nat \<times> nat \<times> nat \<times> nat" where
  "dt_key t =
     (dt_year t, dt_month t, dt_day t, dt_hour t, dt_minute t, dt_second t, dt_microsecond t)"

definition dt_min :: "datetime list \<Rightarrow> datetime option" where
  "dt_min ts =
     fold (\<lambda>t acc. case acc of None \<Rightarrow> Some t
                     | Some m \<Rightarrow> if dt_key t < dt_key m then Some t else Some m) ts None"

definition dt_max :: "datetime list \<Rightarrow> datetime option" where
  "dt_max ts =
     fold (\<lambda>t acc. case acc of None \<Rightarrow> Some t
                     | Some m \<Rightarrow> if dt_key m < dt_key t then Some t else Some m) ts None"

text \<open>
  Decimal digits, zero padded, and \<^verbatim>\<open>strftime("%Y-%m-%d")\<close>; the years that the
  timestamps of a frame can hold have four digits.
\<close>

definition digit_char :: "nat \<Rightarrow> char" where
  "digit_char d = ''0123456789'' ! (d mod 10)"

definition two_digits :: "nat \<Rightarrow> string" where
  "two_digits n = [digit_char (n div 10), digit_char n]"

definition four_digits :: "nat \<Rightarrow> string" where
  "four_digits n = [digit_char (n div 1000), digit_char (n div 100), digit_char (n div 10), digit_char n]"

definition strftime_ymd :: "datetime \<Rightarrow> string" where
  "strftime_ymd t = four_digits (dt_year t) @ ''-'' @ two_digits (dt_month t) @ ''-'' @ two_digits (dt_day t)"

text \<open>
  \<^verbatim>\<open>.strftime(...)\<close> on the result of \<^verbatim>\<open>min()\<close> or \<^verbatim>\<open>max()\<close>: the null result has no such
  method.
\<close>

definition strftime_of :: "datetime option \<Rightarrow> error + string" where
  "strftime_of v = (case v of None \<Rightarrow> Inl AttributeError | Some t \<Rightarrow> Inr (strftime_ymd t))"

text \<open>
  Reductions of a column of counts: \<^verbatim>\<open>mean()\<close> and \<^verbatim>\<open>max()\<close> of no value are \<^verbatim>\<open>nan\<close>
  (\<open>None\<close>); \<^verbatim>\<open>idxmax()\<close> is the label of the first maximum, the labels of a frame built
  from a list being the positions, and raises on no value. Means and percentages are
  exact rationals: the rounding of floats is not modelled.
\<close>

definition mean :: "nat list \<Rightarrow> rat option" where
  "mean xs = (if xs = [] then None else Some (of_nat (sum_list xs) / of_nat (length xs)))"

fun max_list :: "nat list \<Rightarrow> nat" where
  "max_list [] = 0"
| "max_list (x # xs) = max x (max_list xs)"

definition series_max :: "nat list \<Rightarrow> nat option" where
  "series_max xs = (if xs = [] then None else Some (max_list xs))"

definition idxmax :: "nat list \<Rightarrow> error + nat" where
  "idxmax xs =
     (if xs = [] then Inl ValueError else Inr (length (takeWhile (\<lambda>x. x \<noteq> max_list xs) xs)))"

definition count_true :: "bool list \<Rightarrow> nat" where
  "count_true bs = length (filter (\<lambda>b. b) bs)"

record date_range_block =
  earliest :: "string option"
  latest :: "string option"

record content_block =
  avg_char_count :: "rat option"
  avg_word_count :: "rat option"
  longest_post :: json
  longest_post_chars :: "nat option"
  reply_percentage :: rat
  posts_with_images :: nat
  posts_with_links :: nat

definition date_bound :: "(datetime list \<Rightarrow> datetime option) \<Rightarrow> dataframe \<Rightarrow> error + string option" where
  "date_bound reduce df =
     (if \<not> df_empty df then
        bind (column df ''created_at'' created_at) (\<lambda>c.
        bind (strftime_of (reduce (dropna c))) (\<lambda>s. Inr (Some s)))
      else Inr None)"

definition analyze_date_range :: "dataframe \<Rightarrow> error + date_range_block" where
  "analyze_date_range df =
     bind (date_bound dt_min df) (\<lambda>e.
     bind (date_bound dt_max df) (\<lambda>l.
       Inr \<lparr>earliest = e, latest = l\<rparr>))"

definition analyze_content :: "dataframe \<Rightarrow> error + content_block" where
  "analyze_content df =
     bind (column df ''char_count'' char_count) (\<lambda>cs.
     bind (column df ''word_count'' word_count) (\<lambda>ws.
     bind (if \<not> df_empty df then
             bind (column df ''char_count'' char_count) (\<lambda>cs'.
             bind (idxmax cs') (\<lambda>i.
             bind (column df ''text'' post_text) (\<lambda>ts. Inr (ts ! i))))
           else Inr (JStr [])) (\<lambda>longest.
     bind (column df ''char_count'' char_count) (\<lambda>cs''.
     bind (if \<not> df_empty df then
             bind (column df ''is_reply'' is_reply) (\<lambda>rs.
               Inr (of_nat (count_true rs) / of_nat (df_len df) * 100))
           else Inr 0) (\<lambda>pct.
     bind (column df ''has_image'' has_image) (\<lambda>imgs.
     bind (column df ''has_external'' has_external) (\<lambda>exts.
       Inr \<lparr>avg_char_count = mean cs, avg_word_count = mean ws,
            longest_post = longest, longest_post_chars = series_max cs'',
            reply_percentage = pct,
            posts_with_images = count_true imgs,
            posts_with_links = count_true exts\<rparr>)))))))"

text \<open>
  Keys of a \<^verbatim>\<open>set\<close> or a \<^verbatim>\<open>Counter\<close> are compared with \<^verbatim>\<open>==\<close> after hashing: lists and
  dicts cannot be hashed, and \<^verbatim>\<open>True\<close> and \<^verbatim>\<open>False\<close> are equal to \<open>1\<close> and \<open>0\<close>.
\<close>

fun hashable :: "json \<Rightarrow> bool" where
  "hashable (JList xs) = False"
| "hashable (JDict kvs) = False"
| "hashable v = True"

fun key_of :: "json \<Rightarrow> json" where
  "key_of (JBool b) = JInt (if b then 1 else 0)"
| "key_of v = v"

text \<open>
  \<^verbatim>\<open>Counter(xs)\<close>: a dict, so its items are in the order in which the keys were first met
  and a key met again keeps the object stored first.
\<close>

fun counter_add :: "json \<Rightarrow> (json \<times> nat) list \<Rightarrow> (json \<times> nat) list" where
  "counter_add k [] = [(k, 1)]"
| "counter_add k ((k', c) # rest) =
     (if key_of k = key_of k' then (k', c + 1) # rest else (k', c) # counter_add k rest)"

definition Counter :: "json list \<Rightarrow> error + (json \<times> nat) list" where
  "Counter xs = (if list_all hashable xs then Inr (fold counter_add xs []) else Inl TypeError)"

text \<open>
  \<^verbatim>\<open>most_common(n)\<close> is \<^verbatim>\<open>heapq.nlargest(n, items, key=count)\<close>, which the library documents
  as \<^verbatim>\<open>sorted(items, key=count, reverse=True)[:n]\<close>: a stable sort, largest count first.
\<close>

definition most_common :: "nat \<Rightarrow> (json \<times> nat) list \<Rightarrow> (json \<times> nat) list" where
  "most_common n items = take n (sort_key (\<lambda>kc. - int (snd kc)) items)"

text \<open>
  \<^verbatim>\<open>set(xs)\<close> keeps one element of each class of equal elements; the order in which a set
  is iterated depends on the hashes, which for strings change from one run of the
  interpreter to the next. The constructor is therefore a parameter \<open>mkset\<close> of the
  analysis, giving the elements of the set in the order of the run;
  \<open>set_constructor mkset\<close> says that it is a possible one.
\<close>

definition set_constructor :: "(json list \<Rightarrow> json list) \<Rightarrow> bool" where
  "set_constructor mkset =
     (\<forall>xs. distinct (map key_of (mkset xs)) \<and> set (map key_of (mkset xs)) = set (map key_of xs))"

definition py_set :: "(json list \<Rightarrow> json list) \<Rightarrow> json list \<Rightarrow> error + json list" where
  "py_set mkset xs = (if list_all hashable xs then Inr (mkset xs) else Inl TypeError)"

record hashtags_block =
  total_used :: nat
  unique_hashtags :: nat
  most_common_tags :: "(json \<times> nat) list"

definition analyze_hashtags :: "(json list \<Rightarrow> json list) \<Rightarrow> dataframe \<Rightarrow> error + hashtags_block" where
  "analyze_hashtags mkset df =
     bind (column df ''hashtags'' hashtags) (\<lambda>tagss.
       (let all_hashtags = concat tagss in
        bind (py_set mkset all_hashtags) (\<lambda>uniq.
        bind (Counter all_hashtags) (\<lambda>counts.
          Inr \<lparr>total_used = length all_hashtags,
               unique_hashtags = length uniq,
               most_common_tags = most_common 10 counts\<rparr>))))"

text \<open>
  \<^verbatim>\<open>groupby(key).size()\<close>: the rows whose key is null are dropped, the groups come in
  ascending order of the key, each with its number of rows.
\<close>

definition groupby_size :: "('a::linorder) option list \<Rightarrow> ('a \<times> nat) list" where
  "groupby_size keys =
     (let present = dropna keys
      in map (\<lambda>k. (k, count_list present k)) (sort (remdups present)))"

text \<open>
  \<^verbatim>\<open>pd.DataFrame\<close> stores a column of integers as \<^verbatim>\<open>int64\<close>; when one of its values is
  \<^verbatim>\<open>None\<close> the column becomes \<^verbatim>\<open>float64\<close> and the labels of its groups are floats.
\<close>

datatype label = IntLabel nat | FloatLabel nat

definition labelled :: "nat option list \<Rightarrow> (nat \<times> nat) list \<Rightarrow> (label \<times> nat) list" where
  "labelled keys counts =
     map (\<lambda>(k, n). (if None \<in> set keys then FloatLabel k else IntLabel k, n)) counts"

definition day_names :: "string list" where
  "day_names = [''Monday'', ''Tuesday'', ''Wednesday'', ''Thursday'', ''Friday'', ''Saturday'', ''Sunday'']"

text \<open>\<^verbatim>\<open>day_names[day]\<close>: a float is not an index of a list.\<close>

fun day_name :: "label \<Rightarrow> error + string" where
  "day_name (FloatLabel d) = Inl TypeError"
| "day_name (IntLabel d) = (if d < length day_names then Inr (day_names ! d) else Inl IndexError)"

fun mapM :: "('a \<Rightarrow> error + 'b) \<Rightarrow> 'a list \<Rightarrow> error + 'b list" where
  "mapM f [] = Inr []"
| "mapM f (x # xs) = bind (f x) (\<lambda>y. bind (mapM f xs) (\<lambda>ys. Inr (y # ys)))"

text \<open>\<^verbatim>\<open>to_period("M")\<close> and \<^verbatim>\<open>str(period)\<close>.\<close>

definition period_of :: "datetime \<Rightarrow> nat \<times> nat" where
  "period_of t = (dt_year t, dt_month t)"

definition period_str :: "nat \<times> nat \<Rightarrow> string" where
  "period_str p = four_digits (fst p) @ ''-'' @ two_digits (snd p)"

record posting_patterns_block =
  busiest_hour :: label
  busiest_hour_count :: nat
  posts_by_hour :: "(label \<times> nat) list"
  posts_by_day :: "(string \<times> nat) list"
  monthly_activity :: "(string \<times> nat) list"

text \<open>Lines 232 to 252. \<open>None\<close> is a report without the key \<^verbatim>\<open>posting_patterns\<close>.\<close>

definition compute_patterns :: "dataframe \<Rightarrow> error + posting_patterns_block" where
  "compute_patterns df =
     bind (column df ''hour'' hour) (\<lambda>hs.
     bind (Inr (labelled hs (groupby_size hs))) (\<lambda>hourly_counts.
     bind (idxmax (map snd hourly_counts)) (\<lambda>i.
     bind (column df ''day_of_week'' day_of_week) (\<lambda>ds.
     bind (Inr (labelled ds (groupby_size ds))) (\<lambda>daily_counts.
     bind (mapM (\<lambda>(day, n). bind (day_name day) (\<lambda>name. Inr (name, n))) daily_counts) (\<lambda>by_day.
     bind (column df ''created_at'' created_at) (\<lambda>c.
     bind (Inr (groupby_size (map (map_option period_of) c))) (\<lambda>monthly_counts.
       Inr \<lparr>busiest_hour = fst (hourly_counts ! i),
            busiest_hour_count = max_list (map snd hourly_counts),
            posts_by_hour = hourly_counts,
            posts_by_day = by_day,
            monthly_activity = map (\<lambda>(p, n). (period_str p, n)) monthly_counts\<rparr>))))))))"

definition analyze_patterns :: "dataframe \<Rightarrow> error + posting_patterns_block option" where
  "analyze_patterns df =
     bind (if \<not> df_empty df then
             bind (column df ''created_at'' created_at) (\<lambda>c. Inr (dropna c \<noteq> []))
           else Inr False) (\<lambda>any_timestamp.
       if any_timestamp then bind (compute_patterns df) (\<lambda>pp. Inr (Some pp)) else Inr None)"

record analysis =
  total_posts :: nat
  date_range :: date_range_block
  content :: content_block
  hashtags_report :: hashtags_block
  posting_patterns :: "posting_patterns_block option"

text \<open>
  \<^verbatim>\<open>analyze_posts\<close>: the blocks in the order of the source; the first exception leaves
  the function.
\<close>

definition analyze_posts :: "(json list \<Rightarrow> json list) \<Rightarrow> dataframe \<Rightarrow> error + analysis" where
  "analyze_posts mkset df =
     bind (analyze_date_range df) (\<lambda>dr.
     bind (analyze_content df) (\<lambda>ct.
     bind (analyze_hashtags mkset df) (\<lambda>ht.
     bind (analyze_patterns df) (\<lambda>pp.
       Inr \<lparr>total_posts = df_len df, date_range = dr, content = ct,
            hashtags_report = ht, posting_patterns = pp\<rparr>))))"

section \<open>The pipeline of \<^verbatim>\<open>main\<close>\<close>

text \<open>
  What \<^verbatim>\<open>main\<close> does once the session exists, up to the analysis (the charts and the
  files written afterwards are not modelled): it stops with a message when no post was
  fetched, and its \<^verbatim>\<open>except Exception\<close> reports any exception.
\<close>

datatype outcome = NoPostsFound | Analysed dataframe analysis | ErrorOccurred error

definition after_fetch :: "(json list \<Rightarrow> json list) \<Rightarrow> (string \<Rightarrow> datetime option) \<Rightarrow> json list \<Rightarrow> outcome" where
  "after_fetch mkset fromisoformat raw_posts =
     (if raw_posts = [] then NoPostsFound
      else (let df = parse_posts fromisoformat raw_posts
            in case analyze_posts mkset df of
                 Inl e \<Rightarrow> ErrorOccurred e
               | Inr a \<Rightarrow> Analysed df a))"

definition main_pipeline ::
  "(json list \<Rightarrow> json list) \<Rightarrow> (string \<Rightarrow> datetime option) \<Rightarrow> json \<Rightarrow> int option \<Rightarrow> response list \<Rightarrow> outcome option" where
  "main_pipeline mkset fromisoformat access_jwt limit responses =
     (case fetch_posts access_jwt limit responses of
        None \<Rightarrow> None
      | Some (Inl e) \<Rightarrow> Some (ErrorOccurred e)
      | Some (Inr raw_posts) \<Rightarrow> Some (after_fetch mkset fromisoformat raw_posts))"

section \<open>The specification of the hashtag block\<close>

text \<open>
  The hashtag block as the specification words it, over the multiset of all tags of the
  table: its size, the number of distinct tags, and the ten most frequent tags with their
  counts, by falling count, tags of equal count in the order in which they are first met
  in the flattened sequence.
\<close>

definition first_index :: "'a list \<Rightarrow> 'a \<Rightarrow> nat" where
  "first_index xs x = length (takeWhile (\<lambda>y. y \<noteq> x) xs)"

definition spec_most_common :: "json list \<Rightarrow> (json \<times> nat) list" where
  "spec_most_common tags =
     take 10 (map (\<lambda>t. (t, count (mset tags) t))
                (sort_key (\<lambda>t. (- int (count (mset tags) t), first_index tags t)) (remdups tags)))"

definition spec_hashtags :: "json list \<Rightarrow> hashtags_block" where
  "spec_hashtags tags =
     \<lparr>total_used = size (mset tags),
      unique_hashtags = card (set_mset (mset tags)),
      most_common_tags = spec_most_common tags\<rparr>"

section \<open>The sequences of a record, feature by feature\<close>

text \<open>
  The features of one facet as the loop of line 149 iterates them. What one feature
  contributes to the sequence of the type \<open>ty\<close> whose value is stored under \<open>key\<close>: its
  value, the empty string when the feature of that type has no such field, nothing when
  it is of another type. \<open>collect\<close> is the contribution of a list of features, in their
  order.
\<close>

definition facet_features :: "json \<Rightarrow> error + json list" where
  "facet_features facet = bind (py_get facet ''features'' (JList [])) py_iter"

definition feature_values :: "string \<Rightarrow> string \<Rightarrow> json \<Rightarrow> json list" where
  "feature_values ty key feature =
     (case feature of
        JDict kvs \<Rightarrow>
          if map_of kvs ''$type'' = Some (JStr ty)
          then [case map_of kvs key of Some v \<Rightarrow> v | None \<Rightarrow> JStr []]
          else []
      | _ \<Rightarrow> [])"

definition collect :: "string \<Rightarrow> string \<Rightarrow> json list \<Rightarrow> json list" where
  "collect ty key features = concat (map (feature_values ty key) features)"

text \<open>
  The steps of \<^verbatim>\<open>parse_posts\<close> that follow the loop over the facets (lines 157 to 185),
  from the text and the three sequences the loop has built.
\<close>

definition build_record ::
  "json \<Rightarrow> json \<Rightarrow> datetime option \<Rightarrow> json \<Rightarrow> json list \<times> json list \<times> json list \<Rightarrow> error + parsed_post" where
  "build_record post value timestamp body =
     (\<lambda>(ms, hs, ls).
     bind (py_get value ''embed'' (JDict [])) (\<lambda>embed.
     bind (py_get embed ''$type'' JNull) (\<lambda>embed_type.
     bind (py_get value ''reply'' (JDict [])) (\<lambda>reply.
     bind (py_get post ''uri'' (JStr [])) (\<lambda>u.
     bind (py_get post ''cid'' (JStr [])) (\<lambda>c.
     bind (py_len body) (\<lambda>n.
     bind (if truthy body then bind (py_split body) (\<lambda>ws. Inr (length ws)) else Inr 0) (\<lambda>w.
       Inr \<lparr>uri = u, cid = c, post_text = body, created_at = timestamp,
            char_count = n, word_count = w,
            mentions = ms, hashtags = hs, links = ls,
            mention_count = length ms, hashtag_count = length hs, link_count = length ls,
            has_image = (embed_type = JStr ''app.bsky.embed.images''),
            has_external = (embed_type = JStr ''app.bsky.embed.external''),
            is_reply = truthy reply,
            hour = map_option dt_hour timestamp,
            day_of_week = map_option weekday timestamp,
            date = map_option date_of timestamp\<rparr>))))))))"

text \<open>The shapes of values that the claims name.\<close>

fun is_dict :: "json \<Rightarrow> bool" where
  "is_dict (JDict kvs) = True"
| "is_dict v = False"

fun is_str :: "json \<Rightarrow> bool" where
  "is_str (JStr s) = True"
| "is_str v = False"

definition whitespace_only :: "json \<Rightarrow> bool" where
  "whitespace_only v = (case v of JStr s \<Rightarrow> list_all isspace s | _ \<Rightarrow> False)"

section \<open>A parser for the examples\<close>

text \<open>
  The timestamps of the form \<^verbatim>\<open>YYYY-MM-DDTHH:MM:SS+00:00\<close>, which every version of
  \<^verbatim>\<open>datetime.fromisoformat\<close> accepts when the fields are in range. It stands for the
  library's parser in the examples below; the theorems hold for any parser.
\<close>

definition digit_val :: "char \<Rightarrow> nat option" where
  "digit_val c =
     (let n = (of_char c :: nat) in if 48 \<le> n \<and> n \<le> 57 then Some (n - 48) else None)"

fun number :: "nat \<Rightarrow> string \<Rightarrow> nat option" where
  "number acc [] = Some acc"
| "number acc (c # cs) =
     (case digit_val c of None \<Rightarrow> None | Some d \<Rightarrow> number (acc * 10 + d) cs)"

definition fromisoformat_utc :: "string \<Rightarrow> datetime option" where
  "fromisoformat_utc s =
     (if length s = 25 \<and> s ! 4 = CHR ''-'' \<and> s ! 7 = CHR ''-'' \<and> s ! 10 = CHR ''T''
         \<and> s ! 13 = CHR '':'' \<and> s ! 16 = CHR '':'' \<and> drop 19 s = ''+00:00''
      then
        (case (number 0 (take 4 s), number 0 (take 2 (drop 5 s)), number 0 (take 2 (drop 8 s)),
               number 0 (take 2 (drop 11 s)), number 0 (take 2 (drop 14 s)),
               number 0 (take 2 (drop 17 s))) of
           (Some y, Some m, Some d, Some h, Some mi, Some sec) \<Rightarrow>
             if 1 \<le> y \<and> 1 \<le> m \<and> m \<le> 12 \<and> 1 \<le> d \<and> d \<le> days_in_month y m
                \<and> h < 24 \<and> mi < 60 \<and> sec < 60
             then Some \<lparr>dt_year = y, dt_month = m, dt_day = d, dt_hour = h,
                        dt_minute = mi, dt_second = sec, dt_microsecond = 0\<rparr>
             else None
         | _ \<Rightarrow> None)
      else None)"

text \<open>Two ways of listing a set: one element per class, the first met or the last met.\<close>

fun keep_first :: "json list \<Rightarrow> json list \<Rightarrow> json list" where
  "keep_first seen [] = []"
| "keep_first seen (x # xs) =
     (if key_of x \<in> set seen then keep_first seen xs else x # keep_first (key_of x # seen) xs)"

definition set_first :: "json list \<Rightarrow> json list" where
  "set_first xs = keep_first [] xs"

definition set_last :: "json list \<Rightarrow> json list" where
  "set_last xs = keep_first [] (rev xs)"

section \<open>Example data\<close>

text \<open>
  Raw posts as the service sends them: three with a timestamp and tags, and posts that
  carry only a text; the table of the first three, row by row, and its report.
\<close>

definition tag_facet :: "string \<Rightarrow> json" where
  "tag_facet t =
     JDict [(''features'',
       JList [JDict [(''$type'', JStr ''app.bsky.richtext.facet#tag''), (''tag'', JStr t)]])]"

definition example_post :: "string \<Rightarrow> string \<Rightarrow> string list \<Rightarrow> json" where
  "example_post created body tags =
     JDict [(''uri'', JStr ''at://alice/app.bsky.feed.post/1''), (''cid'', JStr ''bafy''),
            (''value'', JDict [(''text'', JStr body), (''createdAt'', JStr created),
                               (''facets'', JList (map tag_facet tags))])]"

definition example_raw_posts :: "json list" where
  "example_raw_posts =
     [example_post ''2024-01-15T10:30:00Z'' ''hello a b'' [''a'', ''b''],
      example_post ''2024-01-16T09:00:00Z'' ''again a'' [''a''],
      example_post ''2024-02-01T10:05:00Z'' ''no tags'' []]"

definition example_table :: dataframe where
  "example_table = parse_posts fromisoformat_utc example_raw_posts"

definition example_row :: "string \<Rightarrow> datetime \<Rightarrow> nat \<Rightarrow> nat \<Rightarrow> string list \<Rightarrow> nat \<Rightarrow> parsed_post" where
  "example_row body t chars words tags wd =
     \<lparr>uri = JStr ''at://alice/app.bsky.feed.post/1'', cid = JStr ''bafy'',
      post_text = JStr body, created_at = Some t,
      char_count = chars, word_count = words,
      mentions = [], hashtags = map JStr tags, links = [],
      mention_count = 0, hashtag_count = length tags, link_count = 0,
      has_image = False, has_external = False, is_reply = False,
      hour = Some (dt_hour t), day_of_week = Some wd,
      date = Some (dt_year t, dt_month t, dt_day t)\<rparr>"

definition example_rows :: "parsed_post list" where
  "example_rows =
     [example_row ''hello a b''
        \<lparr>dt_year = 2024, dt_month = 1, dt_day = 15, dt_hour = 10, dt_minute = 30,
         dt_second = 0, dt_microsecond = 0\<rparr> 9 3 [''a'', ''b''] 0,
      example_row ''again a''
        \<lparr>dt_year = 2024, dt_month = 1, dt_day = 16, dt_hour = 9, dt_minute = 0,
         dt_second = 0, dt_microsecond = 0\<rparr> 7 2 [''a''] 1,
      example_row ''no tags''
        \<lparr>dt_year = 2024, dt_month = 2, dt_day = 1, dt_hour = 10, dt_minute = 5,
         dt_second = 0, dt_microsecond = 0\<rparr> 7 2 [] 3]"

definition example_hashtags :: hashtags_block where
  "example_hashtags =
     \<lparr>total_used = 3, unique_hashtags = 2,
      most_common_tags = [(JStr ''a'', 2), (JStr ''b'', 1)]\<rparr>"

definition example_report :: analysis where
  "example_report =
     \<lparr>total_posts = 3,
      date_range = \<lparr>earliest = Some ''2024-01-15'', latest = Some ''2024-02-01''\<rparr>,
      content =
        \<lparr>avg_char_count = Some (23 / 3), avg_word_count = Some (7 / 3),
         longest_post = JStr ''hello a b'', longest_post_chars = Some 9,
         reply_percentage = 0, posts_with_images = 0, posts_with_links = 0\<rparr>,
      hashtags_report = example_hashtags,
      posting_patterns =
        Some \<lparr>busiest_hour = IntLabel 10, busiest_hour_count = 2,
              posts_by_hour = [(IntLabel 9, 1), (IntLabel 10, 2)],
              posts_by_day = [(''Monday'', 1), (''Tuesday'', 1), (''Thursday'', 1)],
              monthly_activity = [(''2024-01'', 2), (''2024-02'', 1)]\<rparr>\<rparr>"

text \<open>The two pages in which a server hands out the three posts, each with a cursor.\<close>

definition example_pages :: "response list" where
  "example_pages =
     [Body (JDict [(''records'', JList (take 2 example_raw_posts)), (''cursor'', JStr ''page2'')]),
      Body (JDict [(''records'', JList (drop 2 example_raw_posts)), (''cursor'', JStr ''page3'')])]"

text \<open>
  A post with nothing but a text, numbered in its \<^verbatim>\<open>cid\<close>, the row it parses to, and
  \<open>n\<close> such posts.
\<close>

definition simple_post :: "nat \<Rightarrow> json" where
  "simple_post i =
     JDict [(''uri'', JStr ''at://alice/app.bsky.feed.post/2''), (''cid'', JStr (two_digits i)),
            (''value'', JDict [(''text'', JStr ''hello'')])]"

definition simple_row :: "nat \<Rightarrow> parsed_post" where
  "simple_row i =
     \<lparr>uri = JStr ''at://alice/app.bsky.feed.post/2'', cid = JStr (two_digits i),
      post_text = JStr ''hello'', created_at = None,
      char_count = 5, word_count = 1,
      mentions = [], hashtags = [], links = [],
      mention_count = 0, hashtag_count = 0, link_count = 0,
      has_image = False, has_external = False, is_reply = False,
      hour = None, day_of_week = None, date = None\<rparr>"

definition numbered_posts :: "nat \<Rightarrow> json list" where
  "numbered_posts n = map simple_post [0..<n]"

text \<open>
  A batch of ten raw records whose fourth is \<open>bad\<close>; the fourth record without the
  field \<^verbatim>\<open>value\<close>, and with a \<^verbatim>\<open>value\<close> that is \<^verbatim>\<open>null\<close>; a post whose \<^verbatim>\<open>createdAt\<close> is no
  timestamp.
\<close>

definition batch_of_ten :: "json \<Rightarrow> json list" where
  "batch_of_ten bad = map simple_post [1, 2, 3] @ bad # map simple_post [5, 6, 7, 8, 9, 10]"

definition post_without_value :: json where
  "post_without_value =
     JDict [(''uri'', JStr ''at://alice/app.bsky.feed.post/2''), (''cid'', JStr ''04'')]"

definition post_with_null_value :: json where
  "post_with_null_value =
     JDict [(''uri'', JStr ''at://alice/app.bsky.feed.post/2''), (''cid'', JStr ''04''),
            (''value'', JNull)]"

definition post_with_bad_timestamp :: json where
  "post_with_bad_timestamp =
     JDict [(''uri'', JStr ''at://alice/app.bsky.feed.post/2''), (''cid'', JStr ''04''),
            (''value'', JDict [(''text'', JStr ''hello''), (''createdAt'', JStr ''yesterday'')])]"

text \<open>
  Features with and without their value, two facets of them, the post that carries the
  facets and the row it parses to.
\<close>

definition bare_feature :: "string \<Rightarrow> json" where
  "bare_feature ty = JDict [(''$type'', JStr ty)]"

definition tag_feature :: "string \<Rightarrow> json" where
  "tag_feature t = JDict [(''$type'', JStr ''app.bsky.richtext.facet#tag''), (''tag'', JStr t)]"

definition example_features :: "json list list" where
  "example_features =
     [[tag_feature ''a'', bare_feature ''app.bsky.richtext.facet#tag'', tag_feature ''b''],
      [bare_feature ''app.bsky.richtext.facet#mention'',
       bare_feature ''app.bsky.richtext.facet#link'']]"

definition example_facets :: "json list" where
  "example_facets = map (\<lambda>fs. JDict [(''features'', JList fs)]) example_features"

definition post_with_bare_features :: json where
  "post_with_bare_features =
     JDict [(''uri'', JStr ''at://alice/app.bsky.feed.post/2''), (''cid'', JStr ''05''),
            (''value'', JDict [(''text'', JStr ''hello''), (''facets'', JList example_facets)])]"

definition bare_features_row :: parsed_post where
  "bare_features_row =
     (simple_row 5)\<lparr>mentions := [JStr []], hashtags := [JStr ''a'', JStr [], JStr ''b''],
                     links := [JStr []],
                     mention_count := 1, hashtag_count := 3, link_count := 1\<rparr>"

section \<open>Basic facts\<close>

lemma bind_Inr_iff: "bind m k = Inr y \<longleftrightarrow> (\<exists>x. m = Inr x \<and> k x = Inr y)"
  by (cases m) (simp_all add: bind_def)

lemma bind_Inr [simp]: "bind (Inr x) k = k x"
  by (simp add: bind_def)

lemma bind_Inl [simp]: "bind (Inl e) k = Inl e"
  by (simp add: bind_def)

lemma rows_DataFrame [simp]: "rows (DataFrame ps) = ps"
  by (simp add: DataFrame_def)

lemma py_get_not_dict: "\<not> is_dict v \<Longrightarrow> py_get v k d = Inl AttributeError"
  by (cases v) simp_all

section \<open>The fetcher: partial results and the cap\<close>

text \<open>
  While the loop has not returned it has kept every record of every page it was sent. So
  when the next request raises, what it returns is all of them.
\<close>

lemma fetch_loop_not_returned:
  "fetch_loop limit posts total_fetched pages = None \<Longrightarrow>
   fetch_loop limit posts total_fetched (pages @ RequestException # rest)
     = Some (Inr (posts @ concat (map page_records pages)))"
proof (induction pages arbitrary: posts total_fetched)
  case Nil
  then show ?case by simp
next
  case (Cons p pages)
  show ?case
  proof (cases p)
    case RequestException
    with Cons.prems show ?thesis by simp
  next
    case (Body data)
    with Cons.prems obtain batch_posts items cursor where
      b: "py_get data ''records'' (JList []) = Inr batch_posts" "truthy batch_posts"
         "py_iter batch_posts = Inr items" "py_get data ''cursor'' JNull = Inr cursor"
         "truthy cursor" "limit_reached limit (total_fetched + length items) = None"
      and r: "fetch_loop limit (posts @ items) (total_fetched + length items) pages = None"
      by (auto simp: Let_def split: sum.splits if_splits option.splits)
    from Cons.IH[OF r] b Body show ?thesis
      by (simp add: Let_def page_records_def)
  qed
qed

lemma example_pages_records: "concat (map page_records example_pages) = example_raw_posts"
  by (simp add: example_pages_def page_records_def example_raw_posts_def)

lemma fetch_example_pages: "fetch_posts (JStr ''jwt'') None example_pages = None"
  by (simp add: fetch_posts_def example_pages_def example_raw_posts_def limit_reached_def)

text \<open>
  Claim C1. A cap of 50 against a server whose single page holds 60 records and no
  cursor: the loop leaves at \<^verbatim>\<open>if not cursor: break\<close>, before the test of the limit, and
  all 60 records are returned. When the same page carries a cursor the next statement
  cuts the list to its first 50 records.
\<close>

theorem fetch_posts_cap_skipped_on_last_page:
  "fetch_posts (JStr ''jwt'') (Some 50) [Body (JDict [(''records'', JList (numbered_posts 60))])]
     = Some (Inr (numbered_posts 60))
   \<and> length (numbered_posts 60) = 60
   \<and> fetch_posts (JStr ''jwt'') (Some 50)
        [Body (JDict [(''records'', JList (numbered_posts 60)), (''cursor'', JStr ''page2'')])]
     = Some (Inr (take 50 (numbered_posts 60)))"
proof -
  have n: "numbered_posts 60 \<noteq> []" "length (numbered_posts 60) = 60"
    by (auto simp: numbered_posts_def)
  then show ?thesis
    by (simp add: fetch_posts_def limit_reached_def py_slice_to_def)
qed

section \<open>The normalizer: skipped and kept records\<close>

lemma parse_rows_append:
  "parse_rows f (xs @ ys) = parse_rows f xs @ parse_rows f ys"
  by (induction xs) (auto split: sum.splits)

lemma parse_rows_all_ok:
  "\<forall>p\<in>set xs. \<exists>r. parse_post f p = Inr r \<Longrightarrow> length (parse_rows f xs) = length xs"
  by (induction xs) (auto split: sum.splits)

lemma parse_rows_mem:
  "r \<in> set (parse_rows f xs) \<Longrightarrow> \<exists>p\<in>set xs. parse_post f p = Inr r"
  by (induction xs) (auto split: sum.splits)

lemma parse_post_invalid_value:
  assumes "map_of kvs ''value'' = Some v" and "\<not> is_dict v"
  shows "parse_post f (JDict kvs) = Inl AttributeError"
  using assms by (simp add: parse_post_def py_get_not_dict)

text \<open>The example posts, evaluated.\<close>

lemma split_hello: "split ''hello'' = [''hello'']"
  by (simp add: split_def isspace_def)

lemma parse_simple_post: "parse_post f (simple_post i) = Inr (simple_row i)"
  by (simp add: simple_post_def simple_row_def parse_post_def parse_fields_def
      parse_timestamp_def split_hello)

lemma parse_post_without_value:
  "parse_post f post_without_value =
     Inr ((simple_row 4)\<lparr>post_text := JStr [], char_count := 0, word_count := 0\<rparr>)"
  by (simp add: post_without_value_def simple_row_def parse_post_def parse_fields_def
      parse_timestamp_def two_digits_def digit_char_def)

lemma parse_simple_posts: "parse_rows f (map simple_post is) = map simple_row is"
  by (induction "is") (simp_all add: parse_simple_post)

text \<open>
  Claim C5, as stated, fails: a record whose field \<^verbatim>\<open>value\<close> is missing is not skipped.
  \<^verbatim>\<open>post.get("value", {})\<close> gives it the empty dict, every later step finds its default,
  and the record becomes a row with an empty text and no timestamp. The batch of ten
  yields ten rows.
\<close>

theorem missing_value_is_not_skipped:
  "length (rows (parse_posts fromisoformat_utc (batch_of_ten post_without_value))) = 10
   \<and> length (rows (parse_posts fromisoformat_utc (batch_of_ten post_without_value))) \<noteq> 9
   \<and> rows (parse_posts fromisoformat_utc (batch_of_ten post_without_value)) ! 3
       = (simple_row 4)\<lparr>post_text := JStr [], char_count := 0, word_count := 0\<rparr>"
  by (simp add: parse_posts_def batch_of_ten_def parse_simple_post parse_post_without_value)

text \<open>
  Claim C5, amended. A record whose field \<^verbatim>\<open>value\<close> is present and is not a JSON object
  (\<^verbatim>\<open>null\<close>, a string, a number, a list) is skipped entirely and never halts the batch:
  the rows of the batch are the rows of the records before it followed by the rows of
  the records after it, and when those all parse there is exactly one row less than
  records (nine for a batch of ten).
\<close>

theorem parse_posts_skips_invalid_value:
  assumes "map_of kvs ''value'' = Some v" and "\<not> is_dict v"
  shows "rows (parse_posts f (before @ JDict kvs # after))
           = rows (parse_posts f before) @ rows (parse_posts f after)
       \<and> ((\<forall>p\<in>set (before @ after). \<exists>r. parse_post f p = Inr r) \<longrightarrow>
            length (rows (parse_posts f (before @ JDict kvs # after)))
              = length before + length after)"
proof -
  have skip: "parse_rows f (JDict kvs # after) = parse_rows f after"
    using parse_post_invalid_value[OF assms] by simp
  have eq: "parse_rows f (before @ JDict kvs # after) = parse_rows f before @ parse_rows f after"
    by (simp add: parse_rows_append skip del: parse_rows.simps)
  have "(\<forall>p\<in>set (before @ after). \<exists>r. parse_post f p = Inr r) \<Longrightarrow>
     length (parse_rows f before @ parse_rows f after) = length before + length after"
    using parse_rows_all_ok[of "before @ after" f] by (simp add: parse_rows_append)
  with eq show ?thesis by (simp add: parse_posts_def)
qed

theorem parse_posts_skips_invalid_value_witness:
  "map_of [(''uri'', JStr ''at://alice/app.bsky.feed.post/2''), (''cid'', JStr ''04''),
           (''value'', JNull)] ''value'' = Some JNull
   \<and> \<not> is_dict JNull
   \<and> map (parse_post fromisoformat_utc) (map simple_post [1, 2, 3] @ map simple_post [5, 6, 7, 8, 9, 10])
       = map Inr (map simple_row [1, 2, 3, 5, 6, 7, 8, 9, 10])
   \<and> rows (parse_posts fromisoformat_utc (batch_of_ten post_with_null_value))
       = map simple_row [1, 2, 3, 5, 6, 7, 8, 9, 10]
   \<and> length (rows (parse_posts fromisoformat_utc (batch_of_ten post_with_null_value))) = 9"
proof -
  have v: "map_of [(''uri'', JStr ''at://alice/app.bsky.feed.post/2''), (''cid'', JStr ''04''),
           (''value'', JNull)] ''value'' = Some JNull" by simp
  have d: "\<not> is_dict JNull" by simp
  have ok: "\<forall>p\<in>set (map simple_post [1, 2, 3] @ map simple_post [5, 6, 7, 8, 9, 10]).
         \<exists>r. parse_post fromisoformat_utc p = Inr r"
    by (auto simp: parse_simple_post)
  note th = parse_posts_skips_invalid_value[OF v d, of fromisoformat_utc
      "map simple_post [1, 2, 3]" "map simple_post [5, 6, 7, 8, 9, 10]"]
  have b: "batch_of_ten post_with_null_value
        = map simple_post [1, 2, 3]
          @ JDict [(''uri'', JStr ''at://alice/app.bsky.feed.post/2''), (''cid'', JStr ''04''),
                   (''value'', JNull)]
          # map simple_post [5, 6, 7, 8, 9, 10]"
    by (simp only: batch_of_ten_def post_with_null_value_def)
  have r: "rows (parse_posts fromisoformat_utc (map simple_post is)) = map simple_row is" for "is"
    by (simp add: parse_posts_def parse_simple_posts)
  from th ok
  have "rows (parse_posts fromisoformat_utc (batch_of_ten post_with_null_value))
        = map simple_row [1, 2, 3] @ map simple_row [5, 6, 7, 8, 9, 10]"
    and "length (rows (parse_posts fromisoformat_utc (batch_of_ten post_with_null_value)))
        = length (map simple_post [1, 2, 3]) + length (map simple_post [5, 6, 7, 8, 9, 10])"
    unfolding b r by blast+
  then show ?thesis
    using v d by (simp add: parse_simple_post)
qed

text \<open>What a returned row looks like, whatever the post was.\<close>

lemma split_from_Nil: "split_from w s = [] \<longleftrightarrow> w = [] \<and> list_all isspace s"
  by (induction s arbitrary: w) auto

lemma split_Nil: "split s = [] \<longleftrightarrow> list_all isspace s"
  by (simp add: split_def split_from_Nil)

lemma py_len_falsy: "py_len v = Inr n \<Longrightarrow> \<not> truthy v \<Longrightarrow> n = 0"
  by (cases v) auto

lemma py_split_Inr: "py_split v = Inr ws \<Longrightarrow> \<exists>s. v = JStr s \<and> ws = split s"
  by (cases v) auto

lemma parse_fields_record:
  assumes "parse_fields post value timestamp = Inr r"
  shows "py_len (post_text r) = Inr (char_count r)
       \<and> (word_count r = 0 \<longleftrightarrow> py_len (post_text r) = Inr 0 \<or> whitespace_only (post_text r))
       \<and> mention_count r = length (mentions r)
       \<and> hashtag_count r = length (hashtags r)
       \<and> link_count r = length (links r)
       \<and> created_at r = timestamp
       \<and> hour r = map_option dt_hour timestamp
       \<and> day_of_week r = map_option weekday timestamp
       \<and> date r = map_option date_of timestamp"
proof -
  from assms obtain body ms hs ls n w u c img ext rp where
    n: "py_len body = Inr n"
    and w: "(if truthy body then bind (py_split body) (\<lambda>ws. Inr (length ws)) else Inr 0) = Inr w"
    and r: "r = \<lparr>uri = u, cid = c, post_text = body, created_at = timestamp,
            char_count = n, word_count = w,
            mentions = ms, hashtags = hs, links = ls,
            mention_count = length ms, hashtag_count = length hs, link_count = length ls,
            has_image = img, has_external = ext, is_reply = rp,
            hour = map_option dt_hour timestamp,
            day_of_week = map_option weekday timestamp,
            date = map_option date_of timestamp\<rparr>"
    by (auto simp: parse_fields_def bind_Inr_iff split: prod.splits)
  have "w = 0 \<longleftrightarrow> n = 0 \<or> whitespace_only body"
  proof (cases "truthy body")
    case True
    with w obtain s where s: "body = JStr s" "w = length (split s)"
      by (auto simp: bind_Inr_iff dest: py_split_Inr)
    with True n show ?thesis
      by (auto simp: whitespace_only_def split_Nil)
  next
    case False
    with w n show ?thesis by (auto dest: py_len_falsy)
  qed
  with n r show ?thesis by simp
qed

lemma parse_post_Inr:
  "parse_post f post = Inr r \<Longrightarrow> \<exists>value timestamp. parse_fields post value timestamp = Inr r"
  unfolding parse_post_def bind_Inr_iff by auto

text \<open>
  Claim C8. Every row that normalization produces has: \<^verbatim>\<open>char_count\<close> the length of its
  text; \<^verbatim>\<open>word_count\<close> zero exactly when the text is empty (of length 0) or consists of
  whitespace only; and \<^verbatim>\<open>mention_count\<close>, \<^verbatim>\<open>hashtag_count\<close>, \<^verbatim>\<open>link_count\<close> the lengths of
  \<^verbatim>\<open>mentions\<close>, \<^verbatim>\<open>hashtags\<close>, \<^verbatim>\<open>links\<close>.
\<close>

theorem parsed_post_invariant:
  assumes "r \<in> set (rows (parse_posts f raw_posts))"
  shows "py_len (post_text r) = Inr (char_count r)
       \<and> (word_count r = 0 \<longleftrightarrow> py_len (post_text r) = Inr 0 \<or> whitespace_only (post_text r))
       \<and> mention_count r = length (mentions r)
       \<and> hashtag_count r = length (hashtags r)
       \<and> link_count r = length (links r)"
  using assms parse_rows_mem[of r f raw_posts] parse_post_Inr[of f _ r]
    parse_fields_record[of _ _ _ r]
  by (simp add: parse_posts_def) blast

theorem parsed_post_invariant_witness:
  "simple_row 1 \<in> set (rows (parse_posts fromisoformat_utc [simple_post 1]))
   \<and> post_text (simple_row 1) = JStr ''hello''
   \<and> py_len (post_text (simple_row 1)) = Inr (char_count (simple_row 1))
   \<and> (word_count (simple_row 1) = 0 \<longleftrightarrow>
        py_len (post_text (simple_row 1)) = Inr 0 \<or> whitespace_only (post_text (simple_row 1)))
   \<and> mention_count (simple_row 1) = length (mentions (simple_row 1))
   \<and> hashtag_count (simple_row 1) = length (hashtags (simple_row 1))
   \<and> link_count (simple_row 1) = length (links (simple_row 1))"
proof -
  have m: "simple_row 1 \<in> set (rows (parse_posts fromisoformat_utc [simple_post 1]))"
    by (simp add: parse_posts_def parse_simple_post)
  from parsed_post_invariant[OF m] m show ?thesis
    by (simp add: simple_row_def)
qed

text \<open>
  The loops over the facets and their features, when every feature is a JSON object:
  they raise nothing and append to each sequence what each feature contributes.
\<close>

lemma feature_step_values:
  "feature_step (ms, hs, ls) (JDict kvs) =
     Inr (ms @ feature_values ''app.bsky.richtext.facet#mention'' ''did'' (JDict kvs),
          hs @ feature_values ''app.bsky.richtext.facet#tag'' ''tag'' (JDict kvs),
          ls @ feature_values ''app.bsky.richtext.facet#link'' ''uri'' (JDict kvs))"
  by (cases "map_of kvs ''$type''") (auto simp: feature_values_def)

lemma feature_loop_values:
  "list_all is_dict features \<Longrightarrow>
   foldM feature_step (ms, hs, ls) features =
     Inr (ms @ collect ''app.bsky.richtext.facet#mention'' ''did'' features,
          hs @ collect ''app.bsky.richtext.facet#tag'' ''tag'' features,
          ls @ collect ''app.bsky.richtext.facet#link'' ''uri'' features)"
proof (induction features arbitrary: ms hs ls)
  case Nil
  then show ?case by (simp add: collect_def)
next
  case (Cons x xs)
  then obtain kvs where x: "x = JDict kvs" by (cases x) auto
  from Cons.prems have "list_all is_dict xs" by simp
  from Cons.IH[OF this] show ?case
    unfolding x by (simp add: feature_step_values collect_def del: feature_step.simps)
qed

lemma facet_loop_values:
  "map facet_features facet_list = map Inr fss \<Longrightarrow> list_all is_dict (concat fss) \<Longrightarrow>
   foldM facet_step (ms, hs, ls) facet_list =
     Inr (ms @ collect ''app.bsky.richtext.facet#mention'' ''did'' (concat fss),
          hs @ collect ''app.bsky.richtext.facet#tag'' ''tag'' (concat fss),
          ls @ collect ''app.bsky.richtext.facet#link'' ''uri'' (concat fss))"
proof (induction facet_list arbitrary: fss ms hs ls)
  case Nil
  then show ?case by (simp add: collect_def)
next
  case (Cons facet facets)
  from Cons.prems(1) obtain fs fss' where fss: "fss = fs # fss'"
    and f: "facet_features facet = Inr fs" and r: "map facet_features facets = map Inr fss'"
    by (cases fss) auto
  from Cons.prems(2) fss have d: "list_all is_dict fs" "list_all is_dict (concat fss')" by simp_all
  have "facet_step (ms, hs, ls) facet = foldM feature_step (ms, hs, ls) fs"
    using f by (auto simp: facet_step_def facet_features_def bind_Inr_iff)
  with feature_loop_values[OF d(1)] Cons.IH[OF r d(2)] fss show ?case
    by (simp add: collect_def)
qed

lemma parse_fields_build_record:
  "parse_fields post value timestamp =
     bind (py_get value ''text'' (JStr [])) (\<lambda>body.
     bind (py_get value ''facets'' (JList [])) (\<lambda>facets.
     bind (py_iter facets) (\<lambda>facet_list.
     bind (foldM facet_step ([], [], []) facet_list) (build_record post value timestamp body))))"
  by (simp add: parse_fields_def build_record_def)

lemma build_record_sequences:
  "build_record post value timestamp body (ms, hs, ls) = Inr r \<Longrightarrow>
   mentions r = ms \<and> hashtags r = hs \<and> links r = ls
   \<and> mention_count r = length ms \<and> hashtag_count r = length hs \<and> link_count r = length ls"
  by (auto simp: build_record_def bind_Inr_iff)

lemma collect_append: "collect ty key (xs @ ys) = collect ty key xs @ collect ty key ys"
  by (simp add: collect_def)

lemma collect_Cons: "collect ty key (x # xs) = feature_values ty key x @ collect ty key xs"
  by (simp add: collect_def)

text \<open>
  Claim C10. Take a post whose facets can be iterated, each facet giving a list of
  features that are JSON objects, and in it, at any position, a feature whose \<^verbatim>\<open>$type\<close> is
  that of a mention, a tag or a link and that has no field \<^verbatim>\<open>did\<close>, \<^verbatim>\<open>tag\<close> or \<^verbatim>\<open>uri\<close>
  respectively. Normalization of the post is the timestamp and the steps after the loop,
  run on the sequences that all the features contribute: no feature makes it raise, so
  the record is skipped only if one of those other steps raises. In every record
  produced, the sequence of the feature's type holds the empty string at the feature's
  place, between the contributions of the features before and after it, its count is the
  length of that sequence, and the other two sequences are those of the other features.
\<close>

theorem bare_feature_is_kept:
  assumes v: "py_get post ''value'' (JDict []) = Inr value"
    and fa: "bind (py_get value ''facets'' (JList [])) py_iter = Inr facet_list"
    and sh: "map facet_features facet_list = map Inr fss"
    and d: "list_all is_dict (concat fss)"
    and pos: "concat fss = before @ JDict kvs # after"
    and ty: "map_of kvs ''$type'' = Some (JStr ty)"
  shows "parse_post f post =
           bind (py_get value ''createdAt'' (JStr [])) (\<lambda>created.
           bind (parse_timestamp f created) (\<lambda>timestamp.
           bind (py_get value ''text'' (JStr [])) (\<lambda>body.
             build_record post value timestamp body
               (collect ''app.bsky.richtext.facet#mention'' ''did'' (concat fss),
                collect ''app.bsky.richtext.facet#tag'' ''tag'' (concat fss),
                collect ''app.bsky.richtext.facet#link'' ''uri'' (concat fss)))))
       \<and> (ty = ''app.bsky.richtext.facet#mention'' \<and> map_of kvs ''did'' = None \<longrightarrow>
            (\<forall>r. parse_post f post = Inr r \<longrightarrow>
               mentions r = collect ''app.bsky.richtext.facet#mention'' ''did'' before
                            @ JStr [] # collect ''app.bsky.richtext.facet#mention'' ''did'' after
             \<and> mention_count r = length (mentions r)
             \<and> hashtags r = collect ''app.bsky.richtext.facet#tag'' ''tag'' (before @ after)
             \<and> links r = collect ''app.bsky.richtext.facet#link'' ''uri'' (before @ after)))
       \<and> (ty = ''app.bsky.richtext.facet#tag'' \<and> map_of kvs ''tag'' = None \<longrightarrow>
            (\<forall>r. parse_post f post = Inr r \<longrightarrow>
               hashtags r = collect ''app.bsky.richtext.facet#tag'' ''tag'' before
                            @ JStr [] # collect ''app.bsky.richtext.facet#tag'' ''tag'' after
             \<and> hashtag_count r = length (hashtags r)
             \<and> mentions r = collect ''app.bsky.richtext.facet#mention'' ''did'' (before @ after)
             \<and> links r = collect ''app.bsky.richtext.facet#link'' ''uri'' (before @ after)))
       \<and> (ty = ''app.bsky.richtext.facet#link'' \<and> map_of kvs ''uri'' = None \<longrightarrow>
            (\<forall>r. parse_post f post = Inr r \<longrightarrow>
               links r = collect ''app.bsky.richtext.facet#link'' ''uri'' before
                            @ JStr [] # collect ''app.bsky.richtext.facet#link'' ''uri'' after
             \<and> link_count r = length (links r)
             \<and> mentions r = collect ''app.bsky.richtext.facet#mention'' ''did'' (before @ after)
             \<and> hashtags r = collect ''app.bsky.richtext.facet#tag'' ''tag'' (before @ after)))"
proof -
  let ?M = "collect ''app.bsky.richtext.facet#mention'' ''did''"
  let ?T = "collect ''app.bsky.richtext.facet#tag'' ''tag''"
  let ?L = "collect ''app.bsky.richtext.facet#link'' ''uri''"
  from fa obtain facets where
    g: "py_get value ''facets'' (JList []) = Inr facets" and i: "py_iter facets = Inr facet_list"
    by (auto simp: bind_Inr_iff)
  have loop: "foldM facet_step ([], [], []) facet_list
      = Inr (?M (concat fss), ?T (concat fss), ?L (concat fss))"
    using facet_loop_values[OF sh d, of "[]" "[]" "[]"] by simp
  have fields: "parse_fields post value timestamp =
      bind (py_get value ''text'' (JStr [])) (\<lambda>body.
        build_record post value timestamp body (?M (concat fss), ?T (concat fss), ?L (concat fss)))"
    for timestamp
    by (simp add: parse_fields_build_record g i loop)
  then have fields_fun: "parse_fields post value = (\<lambda>timestamp.
      bind (py_get value ''text'' (JStr [])) (\<lambda>body.
        build_record post value timestamp body (?M (concat fss), ?T (concat fss), ?L (concat fss))))"
    by (intro ext)
  have eq: "parse_post f post =
           bind (py_get value ''createdAt'' (JStr [])) (\<lambda>created.
           bind (parse_timestamp f created) (\<lambda>timestamp.
           bind (py_get value ''text'' (JStr [])) (\<lambda>body.
             build_record post value timestamp body
               (?M (concat fss), ?T (concat fss), ?L (concat fss)))))"
    by (simp add: parse_post_def v fields_fun)
  have seqs: "mentions r = ?M (concat fss) \<and> hashtags r = ?T (concat fss) \<and> links r = ?L (concat fss)
      \<and> mention_count r = length (mentions r) \<and> hashtag_count r = length (hashtags r)
      \<and> link_count r = length (links r)"
    if "parse_post f post = Inr r" for r
    using that unfolding eq bind_Inr_iff by (auto dest: build_record_sequences)
  have m: "?M (concat fss) = ?M before @ JStr [] # ?M after"
      "?T (concat fss) = ?T (before @ after)" "?L (concat fss) = ?L (before @ after)"
    if "ty = ''app.bsky.richtext.facet#mention''" "map_of kvs ''did'' = None"
    using that ty by (simp_all add: pos collect_append collect_Cons feature_values_def)
  have t: "?T (concat fss) = ?T before @ JStr [] # ?T after"
      "?M (concat fss) = ?M (before @ after)" "?L (concat fss) = ?L (before @ after)"
    if "ty = ''app.bsky.richtext.facet#tag''" "map_of kvs ''tag'' = None"
    using that ty by (simp_all add: pos collect_append collect_Cons feature_values_def)
  have l: "?L (concat fss) = ?L before @ JStr [] # ?L after"
      "?M (concat fss) = ?M (before @ after)" "?T (concat fss) = ?T (before @ after)"
    if "ty = ''app.bsky.richtext.facet#link''" "map_of kvs ''uri'' = None"
    using that ty by (simp_all add: pos collect_append collect_Cons feature_values_def)
  show ?thesis
    using eq seqs m t l by metis
qed

lemma parse_post_with_bare_features:
  "parse_post f post_with_bare_features = Inr bare_features_row"
  by (simp add: post_with_bare_features_def example_facets_def example_features_def
      tag_feature_def bare_feature_def bare_features_row_def simple_row_def parse_post_def
      parse_fields_def parse_timestamp_def facet_step_def split_hello two_digits_def
      digit_char_def)

theorem bare_feature_is_kept_witness:
  "py_get post_with_bare_features ''value'' (JDict [])
     = Inr (JDict [(''text'', JStr ''hello''), (''facets'', JList example_facets)])
   \<and> map facet_features example_facets = map Inr example_features
   \<and> list_all is_dict (concat example_features)
   \<and> concat example_features
       = [tag_feature ''a''] @ bare_feature ''app.bsky.richtext.facet#tag''
         # [tag_feature ''b'', bare_feature ''app.bsky.richtext.facet#mention'',
            bare_feature ''app.bsky.richtext.facet#link'']
   \<and> parse_post fromisoformat_utc post_with_bare_features = Inr bare_features_row
   \<and> hashtags bare_features_row = [JStr ''a'', JStr [], JStr ''b'']
   \<and> hashtag_count bare_features_row = 3
   \<and> mentions bare_features_row = [JStr []]
   \<and> links bare_features_row = [JStr []]"
proof -
  let ?vdict = "JDict [(''text'', JStr ''hello''), (''facets'', JList example_facets)]"
  let ?before = "[tag_feature ''a'']"
  let ?after = "[tag_feature ''b'', bare_feature ''app.bsky.richtext.facet#mention'',
            bare_feature ''app.bsky.richtext.facet#link'']"
  have v: "py_get post_with_bare_features ''value'' (JDict []) = Inr ?vdict"
    by (simp add: post_with_bare_features_def)
  have fa: "bind (py_get ?vdict ''facets'' (JList [])) py_iter = Inr example_facets"
    by simp
  have sh: "map facet_features example_facets = map Inr example_features"
    by (simp add: example_facets_def example_features_def facet_features_def)
  have d: "list_all is_dict (concat example_features)"
    by (simp add: example_features_def tag_feature_def bare_feature_def)
  have pos: "concat example_features
      = ?before @ JDict [(''$type'', JStr ''app.bsky.richtext.facet#tag'')] # ?after"
    by (simp add: example_features_def bare_feature_def)
  have ty: "map_of [(''$type'', JStr ''app.bsky.richtext.facet#tag'')] ''$type''
      = Some (JStr ''app.bsky.richtext.facet#tag'')"
    by simp
  have p: "parse_post fromisoformat_utc post_with_bare_features = Inr bare_features_row"
    by (rule parse_post_with_bare_features)
  from bare_feature_is_kept[OF v fa sh d pos ty, of fromisoformat_utc] p
  have "hashtags bare_features_row
      = collect ''app.bsky.richtext.facet#tag'' ''tag'' ?before
        @ JStr [] # collect ''app.bsky.richtext.facet#tag'' ''tag'' ?after"
    and "hashtag_count bare_features_row = length (hashtags bare_features_row)"
    and "mentions bare_features_row
      = collect ''app.bsky.richtext.facet#mention'' ''did'' (?before @ ?after)"
    and "links bare_features_row
      = collect ''app.bsky.richtext.facet#link'' ''uri'' (?before @ ?after)"
    by simp_all
  then have "hashtags bare_features_row = [JStr ''a'', JStr [], JStr ''b'']"
    and "hashtag_count bare_features_row = 3"
    and "mentions bare_features_row = [JStr []]"
    and "links bare_features_row = [JStr []]"
    by (simp_all add: collect_def feature_values_def tag_feature_def bare_feature_def)
  with v sh d pos p show ?thesis
    by (simp add: bare_feature_def)
qed

text \<open>
  Claim C2, as stated, fails for a timestamp that cannot be parsed: \<^verbatim>\<open>fromisoformat\<close>
  raises \<^verbatim>\<open>ValueError\<close> inside the \<^verbatim>\<open>try\<close>, the handler of line 189 catches it, and the
  record is skipped, not kept with a null timestamp.
\<close>

theorem unparseable_timestamp_is_skipped:
  "fromisoformat_utc (replace_Z ''yesterday'') = None
   \<and> parse_post fromisoformat_utc post_with_bad_timestamp = Inl ValueError
   \<and> rows (parse_posts fromisoformat_utc [post_with_bad_timestamp]) = []"
proof -
  have n: "fromisoformat_utc (replace_Z ''yesterday'') = None"
    by (simp add: replace_Z_def fromisoformat_utc_def)
  then show ?thesis
    by (simp add: parse_posts_def post_with_bad_timestamp_def parse_post_def parse_timestamp_def)
qed

text \<open>
  Claim C2, amended. For every raw post whose \<^verbatim>\<open>value\<close> has no field \<^verbatim>\<open>createdAt\<close>, the
  timestamp cannot abort normalization: the outcome is that of the remaining steps run
  with a null timestamp, and every record produced has \<^verbatim>\<open>created_at\<close>, \<^verbatim>\<open>hour\<close>,
  \<^verbatim>\<open>day_of_week\<close> and \<^verbatim>\<open>date\<close> null. A post whose \<^verbatim>\<open>createdAt\<close> is a string that is not
  empty and that the parser rejects is skipped.
\<close>

theorem parse_post_createdAt:
  assumes "py_get post ''value'' (JDict []) = Inr (JDict vs)"
  shows "(map_of vs ''createdAt'' = None \<longrightarrow>
            parse_post f post = parse_fields post (JDict vs) None
          \<and> (\<forall>r. parse_post f post = Inr r \<longrightarrow>
                created_at r = None \<and> hour r = None \<and> day_of_week r = None \<and> date r = None))
       \<and> (\<forall>s. map_of vs ''createdAt'' = Some (JStr s) \<and> s \<noteq> [] \<and> f (replace_Z s) = None \<longrightarrow>
            parse_post f post = Inl ValueError \<and> parse_rows f [post] = [])"
proof -
  have a: "parse_post f post = parse_fields post (JDict vs) None" if "map_of vs ''createdAt'' = None"
    using assms that by (simp add: parse_post_def parse_timestamp_def)
  have b: "created_at r = None \<and> hour r = None \<and> day_of_week r = None \<and> date r = None"
    if "map_of vs ''createdAt'' = None" "parse_post f post = Inr r" for r
    using parse_fields_record[of post "JDict vs" None r] a that by simp
  have c: "parse_post f post = Inl ValueError \<and> parse_rows f [post] = []"
    if "map_of vs ''createdAt'' = Some (JStr s)" "s \<noteq> []" "f (replace_Z s) = None" for s
    using assms that by (simp add: parse_post_def parse_timestamp_def)
  from a b c show ?thesis by blast
qed

theorem parse_post_createdAt_witness:
  "py_get (simple_post 1) ''value'' (JDict []) = Inr (JDict [(''text'', JStr ''hello'')])
   \<and> map_of [(''text'', JStr ''hello'')] ''createdAt'' = None
   \<and> parse_post fromisoformat_utc (simple_post 1) = Inr (simple_row 1)
   \<and> created_at (simple_row 1) = None \<and> hour (simple_row 1) = None
   \<and> day_of_week (simple_row 1) = None \<and> date (simple_row 1) = None
   \<and> py_get post_with_bad_timestamp ''value'' (JDict [])
       = Inr (JDict [(''text'', JStr ''hello''), (''createdAt'', JStr ''yesterday'')])
   \<and> map_of [(''text'', JStr ''hello''), (''createdAt'', JStr ''yesterday'')] ''createdAt''
       = Some (JStr ''yesterday'')
   \<and> ''yesterday'' \<noteq> [] \<and> fromisoformat_utc (replace_Z ''yesterday'') = None
   \<and> parse_post fromisoformat_utc post_with_bad_timestamp = Inl ValueError"
proof -
  have v1: "py_get (simple_post 1) ''value'' (JDict []) = Inr (JDict [(''text'', JStr ''hello'')])"
    by (simp add: simple_post_def)
  have v2: "py_get post_with_bad_timestamp ''value'' (JDict [])
       = Inr (JDict [(''text'', JStr ''hello''), (''createdAt'', JStr ''yesterday'')])"
    by (simp add: post_with_bad_timestamp_def)
  have n: "fromisoformat_utc (replace_Z ''yesterday'') = None"
    by (simp add: replace_Z_def fromisoformat_utc_def)
  have p: "parse_post fromisoformat_utc (simple_post 1) = Inr (simple_row 1)"
    by (rule parse_simple_post)
  from parse_post_createdAt[OF v1, of fromisoformat_utc] p
  have "created_at (simple_row 1) = None \<and> hour (simple_row 1) = None
      \<and> day_of_week (simple_row 1) = None \<and> date (simple_row 1) = None"
    by simp
  moreover from parse_post_createdAt[OF v2, of fromisoformat_utc] n
  have "parse_post fromisoformat_utc post_with_bad_timestamp = Inl ValueError"
    by simp
  ultimately show ?thesis using v1 v2 n p by simp
qed

section \<open>The aggregator on concrete tables\<close>

lemma example_post_1:
  "parse_post fromisoformat_utc (example_post ''2024-01-15T10:30:00Z'' ''hello a b'' [''a'', ''b''])
     = Inr (example_rows ! 0)"
  by (simp add: example_rows_def example_row_def example_post_def tag_facet_def
      parse_post_def parse_fields_def parse_timestamp_def replace_Z_def fromisoformat_utc_def
      digit_val_def facet_step_def weekday_def date_of_def ymd2ord_def days_before_year_def
      days_before_month_def days_in_month_def is_leap_def split_def isspace_def)

lemma example_post_2:
  "parse_post fromisoformat_utc (example_post ''2024-01-16T09:00:00Z'' ''again a'' [''a''])
     = Inr (example_rows ! 1)"
  by (simp add: example_rows_def example_row_def example_post_def tag_facet_def
      parse_post_def parse_fields_def parse_timestamp_def replace_Z_def fromisoformat_utc_def
      digit_val_def facet_step_def weekday_def date_of_def ymd2ord_def days_before_year_def
      days_before_month_def days_in_month_def is_leap_def split_def isspace_def)

lemma example_post_3:
  "parse_post fromisoformat_utc (example_post ''2024-02-01T10:05:00Z'' ''no tags'' [])
     = Inr (example_rows ! 2)"
  by (simp add: example_rows_def example_row_def example_post_def tag_facet_def
      parse_post_def parse_fields_def parse_timestamp_def replace_Z_def fromisoformat_utc_def
      digit_val_def facet_step_def weekday_def date_of_def ymd2ord_def days_before_year_def
      days_before_month_def days_in_month_def is_leap_def split_def isspace_def)

lemma example_table_rows: "example_table = \<lparr>columns = post_keys, rows = example_rows\<rparr>"
proof -
  have "parse_rows fromisoformat_utc example_raw_posts
      = [example_rows ! 0, example_rows ! 1, example_rows ! 2]"
    by (simp add: example_raw_posts_def example_post_1 example_post_2 example_post_3)
  also have "\<dots> = example_rows" by (simp add: example_rows_def)
  finally show ?thesis
    by (simp add: example_table_def parse_posts_def DataFrame_def example_rows_def)
qed

lemma example_date_range:
  "analyze_date_range example_table
     = Inr \<lparr>earliest = Some ''2024-01-15'', latest = Some ''2024-02-01''\<rparr>"
  by (simp add: example_table_rows example_rows_def example_row_def post_keys_def
      analyze_date_range_def date_bound_def df_empty_def column_def dt_min_def dt_max_def
      dt_key_def less_prod_def strftime_of_def strftime_ymd_def four_digits_def two_digits_def
      digit_char_def)

lemma example_content:
  "analyze_content example_table
     = Inr \<lparr>avg_char_count = Some (23 / 3), avg_word_count = Some (7 / 3),
            longest_post = JStr ''hello a b'', longest_post_chars = Some 9,
            reply_percentage = 0, posts_with_images = 0, posts_with_links = 0\<rparr>"
  by (simp add: example_table_rows example_rows_def example_row_def post_keys_def
      analyze_content_def df_empty_def column_def df_len_def mean_def series_max_def idxmax_def
      count_true_def)

lemma example_hashtags_block: "analyze_hashtags set_first example_table = Inr example_hashtags"
  by (simp add: example_table_rows example_rows_def example_row_def post_keys_def
      analyze_hashtags_def column_def py_set_def set_first_def Counter_def most_common_def
      example_hashtags_def)

lemma example_patterns:
  "analyze_patterns example_table
     = Inr (Some \<lparr>busiest_hour = IntLabel 10, busiest_hour_count = 2,
              posts_by_hour = [(IntLabel 9, 1), (IntLabel 10, 2)],
              posts_by_day = [(''Monday'', 1), (''Tuesday'', 1), (''Thursday'', 1)],
              monthly_activity = [(''2024-01'', 2), (''2024-02'', 1)]\<rparr>)"
  by (simp add: example_table_rows example_rows_def example_row_def post_keys_def
      analyze_patterns_def compute_patterns_def df_empty_def column_def groupby_size_def
      labelled_def idxmax_def day_names_def period_of_def period_str_def four_digits_def
      two_digits_def digit_char_def less_eq_prod_def less_prod_def)

lemma example_analysis: "analyze_posts set_first example_table = Inr example_report"
  by (simp add: analyze_posts_def example_date_range example_content example_hashtags_block
      example_patterns example_report_def)
    (simp add: example_table_rows example_rows_def df_len_def)

section \<open>The pipeline after a failed request\<close>

text \<open>
  Claim C9, as stated, fails when it is the first request that raises: \<^verbatim>\<open>fetch_posts\<close>
  returns the empty list, as the claim says, but \<^verbatim>\<open>main\<close> then prints that no posts were
  found and returns at line 411. Nothing is normalized or analysed.
\<close>

theorem first_request_failure_stops_main:
  "fetch_posts (JStr ''jwt'') None [RequestException] = Some (Inr [])
   \<and> main_pipeline set_first fromisoformat_utc (JStr ''jwt'') None [RequestException]
       = Some NoPostsFound"
  by (simp add: fetch_posts_def main_pipeline_def after_fetch_def)

text \<open>
  Claim C9, amended. The session is authenticated and the loop, having received the pages
  \<open>1..N-1\<close>, has not returned, so it sends request \<open>N\<close>, which raises a
  \<^verbatim>\<open>RequestException\<close>. Then \<^verbatim>\<open>fetch_posts\<close> returns, without raising, exactly the records of
  the pages \<open>1..N-1\<close> in their order (none when \<open>N = 1\<close>). When that list is not empty
  \<^verbatim>\<open>main\<close> normalizes it and analyses the table; when it is empty \<^verbatim>\<open>main\<close> stops with its
  message.
\<close>

theorem fetch_posts_transport_error:
  assumes "truthy access_jwt" and "fetch_posts access_jwt limit pages = None"
  shows "fetch_posts access_jwt limit (pages @ RequestException # rest)
           = Some (Inr (concat (map page_records pages)))
       \<and> (concat (map page_records pages) \<noteq> [] \<longrightarrow>
            main_pipeline mkset fromisoformat access_jwt limit (pages @ RequestException # rest)
              = Some (case analyze_posts mkset
                             (parse_posts fromisoformat (concat (map page_records pages))) of
                        Inl e \<Rightarrow> ErrorOccurred e
                      | Inr a \<Rightarrow>
                          Analysed (parse_posts fromisoformat (concat (map page_records pages))) a))
       \<and> (concat (map page_records pages) = [] \<longrightarrow>
            main_pipeline mkset fromisoformat access_jwt limit (pages @ RequestException # rest)
              = Some NoPostsFound)"
proof -
  from assms have "fetch_loop limit [] 0 pages = None"
    by (simp add: fetch_posts_def)
  from fetch_loop_not_returned[OF this, of rest] assms(1)
  have "fetch_posts access_jwt limit (pages @ RequestException # rest)
           = Some (Inr (concat (map page_records pages)))"
    by (simp add: fetch_posts_def)
  then show ?thesis by (simp add: main_pipeline_def after_fetch_def Let_def)
qed

theorem fetch_posts_transport_error_witness:
  "truthy (JStr ''jwt'')
   \<and> fetch_posts (JStr ''jwt'') None example_pages = None
   \<and> concat (map page_records example_pages) = example_raw_posts
   \<and> example_raw_posts \<noteq> []
   \<and> fetch_posts (JStr ''jwt'') None (example_pages @ [RequestException]) = Some (Inr example_raw_posts)
   \<and> main_pipeline set_first fromisoformat_utc (JStr ''jwt'') None (example_pages @ [RequestException])
        = Some (Analysed example_table example_report)"
proof -
  have t: "truthy (JStr ''jwt'')" by simp
  have n: "example_raw_posts \<noteq> []" by (simp add: example_raw_posts_def)
  note th = fetch_posts_transport_error[OF t fetch_example_pages, of "[]" set_first
      fromisoformat_utc, unfolded example_pages_records]
  from th n
  have "fetch_posts (JStr ''jwt'') None (example_pages @ [RequestException]) = Some (Inr example_raw_posts)"
    and "main_pipeline set_first fromisoformat_utc (JStr ''jwt'') None (example_pages @ [RequestException])
        = Some (case analyze_posts set_first (parse_posts fromisoformat_utc example_raw_posts) of
                  Inl e \<Rightarrow> ErrorOccurred e
                | Inr a \<Rightarrow> Analysed (parse_posts fromisoformat_utc example_raw_posts) a)"
    by simp_all
  then show ?thesis
    using t n fetch_example_pages example_analysis
    by (simp add: example_pages_records example_table_def)
qed

text \<open>
  A frame without columns makes \<^verbatim>\<open>analyze_posts\<close> raise at its first column access that
  is not guarded, and that is the frame of every batch whose records are all skipped.
\<close>

lemma analyze_posts_no_columns:
  "columns df = [] \<Longrightarrow> analyze_posts mkset df = Inl (KeyError ''char_count'')"
  by (simp add: analyze_posts_def analyze_date_range_def date_bound_def df_empty_def
      analyze_content_def column_def)

lemma parse_rows_all_skipped:
  "\<forall>p\<in>set raw_posts. \<exists>e. parse_post f p = Inl e \<Longrightarrow> parse_rows f raw_posts = []"
  by (induction raw_posts) auto

lemma analyze_posts_all_skipped:
  "\<forall>p\<in>set raw_posts. \<exists>e. parse_post f p = Inl e \<Longrightarrow>
   analyze_posts mkset (parse_posts f raw_posts) = Inl (KeyError ''char_count'')"
  by (simp add: parse_posts_def parse_rows_all_skipped DataFrame_def analyze_posts_no_columns)

text \<open>
  Claim C3. The table of zero normalized rows is \<^verbatim>\<open>pd.DataFrame([])\<close>, which has no
  columns: the date range is guarded by \<^verbatim>\<open>df.empty\<close>, then \<^verbatim>\<open>df["char_count"]\<close> of line
  214 raises \<^verbatim>\<open>KeyError\<close> and no report is returned. \<^verbatim>\<open>main\<close> reaches it when every
  fetched record is skipped, and reports the exception.
\<close>

theorem analyze_posts_empty_table_raises:
  "analyze_posts mkset (parse_posts fromisoformat []) = Inl (KeyError ''char_count'')
   \<and> rows (parse_posts fromisoformat [post_with_null_value]) = []
   \<and> analyze_posts mkset (parse_posts fromisoformat [post_with_null_value])
       = Inl (KeyError ''char_count'')
   \<and> main_pipeline mkset fromisoformat (JStr ''jwt'') None
        [Body (JDict [(''records'', JList [post_with_null_value])])]
       = Some (ErrorOccurred (KeyError ''char_count''))"
proof -
  have e: "analyze_posts mkset (DataFrame []) = Inl (KeyError ''char_count'')"
    by (simp add: analyze_posts_def analyze_date_range_def date_bound_def df_empty_def
        DataFrame_def analyze_content_def column_def)
  have s: "parse_rows fromisoformat [post_with_null_value] = []"
    by (simp add: post_with_null_value_def parse_post_def)
  have f: "fetch_posts (JStr ''jwt'') None [Body (JDict [(''records'', JList [post_with_null_value])])]
      = Some (Inr [post_with_null_value])"
    by (simp add: fetch_posts_def)
  show ?thesis
    using e s by (simp add: parse_posts_def main_pipeline_def f after_fetch_def)
qed

text \<open>
  On an empty frame that has kept its columns the guards do suffice, and the report is
  the one the specification describes.
\<close>

lemma analyze_posts_empty_with_columns:
  "analyze_posts set_first \<lparr>columns = post_keys, rows = []\<rparr>
     = Inr \<lparr>total_posts = 0, date_range = \<lparr>earliest = None, latest = None\<rparr>,
            content = \<lparr>avg_char_count = None, avg_word_count = None, longest_post = JStr [],
                       longest_post_chars = None, reply_percentage = 0,
                       posts_with_images = 0, posts_with_links = 0\<rparr>,
            hashtags_report = \<lparr>total_used = 0, unique_hashtags = 0, most_common_tags = []\<rparr>,
            posting_patterns = None\<rparr>"
  by (simp add: analyze_posts_def analyze_date_range_def date_bound_def df_empty_def
      analyze_content_def column_def post_keys_def mean_def series_max_def count_true_def
      analyze_hashtags_def py_set_def set_first_def Counter_def most_common_def
      analyze_patterns_def df_len_def)

text \<open>
  On every table that has rows, all without a timestamp, the date range raises.
\<close>

lemma dropna_all_null: "\<forall>x\<in>set xs. x = None \<Longrightarrow> dropna xs = []"
  by (induction xs) auto

lemma analyze_posts_all_null:
  assumes "rows df \<noteq> []" and "''created_at'' \<in> set (columns df)"
    and "\<forall>r\<in>set (rows df). created_at r = None"
  shows "analyze_posts mkset df = Inl AttributeError"
proof -
  have "dropna (map created_at (rows df)) = []"
    using assms(3) by (intro dropna_all_null) auto
  moreover have "\<not> df_empty df"
    using assms(1,2) by (auto simp: df_empty_def)
  ultimately show ?thesis
    using assms(2)
    by (simp add: analyze_posts_def analyze_date_range_def date_bound_def column_def dt_min_def
        strftime_of_def)
qed

text \<open>
  Claim C4. A table that is not empty and whose rows all have a null \<^verbatim>\<open>created_at\<close>, here
  the table of one post without \<^verbatim>\<open>createdAt\<close>: \<^verbatim>\<open>df.empty\<close> is false, \<^verbatim>\<open>min()\<close> of the
  column is null, and \<^verbatim>\<open>.strftime\<close> on it raises at line 208. No report is returned.
\<close>

theorem analyze_posts_null_timestamps_raises:
  "rows (parse_posts fromisoformat [simple_post 1]) = [simple_row 1]
   \<and> created_at (simple_row 1) = None
   \<and> analyze_posts mkset (parse_posts fromisoformat [simple_post 1]) = Inl AttributeError"
  by (simp add: parse_posts_def parse_simple_post DataFrame_def simple_row_def analyze_posts_def
      analyze_date_range_def date_bound_def df_empty_def column_def post_keys_def dt_min_def
      strftime_of_def)

text \<open>
  When only some rows have a null \<^verbatim>\<open>created_at\<close> the date range is computed, but the
  column \<^verbatim>\<open>day_of_week\<close> holds floats and \<^verbatim>\<open>day_names[day]\<close> of line 245 raises.
\<close>

lemma analyze_posts_mixed_timestamps_raises:
  "analyze_posts mkset \<lparr>columns = post_keys, rows = [simple_row 1, example_rows ! 0]\<rparr>
     = Inl TypeError"
proof -
  let ?df = "\<lparr>columns = post_keys, rows = [simple_row 1, example_rows ! 0]\<rparr>"
  have d: "analyze_date_range ?df = Inr \<lparr>earliest = Some ''2024-01-15'', latest = Some ''2024-01-15''\<rparr>"
    by (simp add: simple_row_def example_rows_def example_row_def post_keys_def
      analyze_date_range_def date_bound_def df_empty_def column_def dt_min_def dt_max_def
      strftime_of_def strftime_ymd_def four_digits_def two_digits_def digit_char_def)
  have c: "\<exists>ct. analyze_content ?df = Inr ct"
    by (simp add: simple_row_def example_rows_def example_row_def post_keys_def
      analyze_content_def df_empty_def column_def df_len_def idxmax_def)
  have h: "\<exists>ht. analyze_hashtags mkset ?df = Inr ht"
    by (simp add: simple_row_def example_rows_def example_row_def post_keys_def
      analyze_hashtags_def column_def py_set_def Counter_def)
  have p: "analyze_patterns ?df = Inl TypeError"
    by (simp add: simple_row_def example_rows_def example_row_def post_keys_def
      analyze_patterns_def compute_patterns_def df_empty_def column_def groupby_size_def
      labelled_def idxmax_def)
  from c h obtain ct ht where "analyze_content ?df = Inr ct" "analyze_hashtags mkset ?df = Inr ht"
    by blast
  with d p show ?thesis by (simp add: analyze_posts_def)
qed

section \<open>The hashtag block against its specification\<close>

lemma is_str_key_of: "is_str t \<Longrightarrow> key_of t = t"
  by (cases t) simp_all

lemma is_str_hashable: "is_str t \<Longrightarrow> hashable t"
  by (cases t) simp_all

text \<open>Listing a set: the first element of each class, in the order of the list.\<close>

lemma keep_first_set_seen:
  "set s1 = set s2 \<Longrightarrow> keep_first s1 xs = keep_first s2 xs"
proof (induction xs arbitrary: s1 s2)
  case Nil
  show ?case by simp
next
  case (Cons x xs)
  have "keep_first (key_of x # s1) xs = keep_first (key_of x # s2) xs"
    by (rule Cons.IH) (simp add: Cons.prems)
  moreover have "keep_first s1 xs = keep_first s2 xs"
    by (rule Cons.IH) (rule Cons.prems)
  moreover have "key_of x \<in> set s1 \<longleftrightarrow> key_of x \<in> set s2"
    by (simp only: Cons.prems)
  ultimately show ?case by simp
qed

lemma set_keep_first:
  "\<forall>x\<in>set xs. key_of x = x \<Longrightarrow> set (keep_first seen xs) = set xs - set seen"
  by (induction xs arbitrary: seen) auto

lemma distinct_keep_first:
  "\<forall>x\<in>set xs. key_of x = x \<Longrightarrow> distinct (keep_first seen xs)"
  by (induction xs arbitrary: seen) (auto simp: set_keep_first)

lemma first_index_Cons:
  "first_index (x # xs) a = (if a = x then 0 else Suc (first_index xs a))"
  by (auto simp: first_index_def)

lemma sorted_keep_first:
  "\<forall>x\<in>set xs. key_of x = x \<Longrightarrow>
   sorted_wrt (\<lambda>a b. first_index xs a < first_index xs b) (keep_first seen xs)"
proof (induction xs arbitrary: seen)
  case Nil
  then show ?case by simp
next
  case (Cons x xs)
  then have k: "\<forall>x\<in>set xs. key_of x = x" and kx: "key_of x = x" by simp_all
  have mono: "sorted_wrt (\<lambda>a b. first_index (x # xs) a < first_index (x # xs) b) (keep_first s xs)"
    if "x \<in> set s" for s
  proof (rule sorted_wrt_mono_rel[OF _ Cons.IH[OF k, of s]])
    fix a b assume "a \<in> set (keep_first s xs)" "b \<in> set (keep_first s xs)"
      "first_index xs a < first_index xs b"
    with that k show "first_index (x # xs) a < first_index (x # xs) b"
      by (auto simp: set_keep_first first_index_Cons)
  qed
  show ?case
  proof (cases "x \<in> set seen")
    case True
    with kx mono[of seen] show ?thesis by simp
  next
    case False
    have "\<forall>a\<in>set (keep_first (x # seen) xs). first_index (x # xs) x < first_index (x # xs) a"
      using k by (auto simp: set_keep_first first_index_Cons)
    with False kx mono[of "x # seen"] show ?thesis by simp
  qed
qed

text \<open>
  \<^verbatim>\<open>Counter\<close> on keys that are their own class: the keys in the order in which they are
  first met, each with the number of its occurrences.
\<close>

lemma map_bump_absent:
  "k \<notin> fst ` set acc \<Longrightarrow> map (\<lambda>p. if fst p = k then (fst p, snd p + 1) else p) acc = acc"
  by (induction acc) auto

lemma counter_add_canon:
  "key_of k = k \<Longrightarrow> \<forall>p\<in>set acc. key_of (fst p) = fst p \<Longrightarrow> distinct (map fst acc) \<Longrightarrow>
   counter_add k acc =
     (if k \<in> fst ` set acc
      then map (\<lambda>p. if fst p = k then (fst p, snd p + (1::nat)) else p) acc
      else acc @ [(k, 1)])"
proof (induction acc)
  case Nil
  then show ?case by simp
next
  case (Cons p acc)
  obtain k' c where p: "p = (k', c)" by (cases p)
  show ?case
  proof (cases "k = k'")
    case True
    with Cons.prems p have "k \<notin> fst ` set acc" by auto
    from map_bump_absent[OF this] True p show ?thesis by simp
  next
    case False
    with Cons p show ?thesis by auto
  qed
qed

lemma fold_counter_add:
  assumes "\<forall>x\<in>set xs. key_of x = x" and "\<forall>p\<in>set acc. key_of (fst p) = fst p"
    and "distinct (map fst acc)"
  shows "fold counter_add xs acc =
     map (\<lambda>p. (fst p, snd p + count_list xs (fst p))) acc
     @ map (\<lambda>t. (t, count_list xs t)) (keep_first (map fst acc) xs)"
  using assms
proof (induction xs arbitrary: acc)
  case Nil
  then show ?case by simp
next
  case (Cons x xs)
  then have kx: "key_of x = x" and k: "\<forall>x\<in>set xs. key_of x = x" by simp_all
  show ?case
  proof (cases "x \<in> fst ` set acc")
    case True
    let ?acc = "map (\<lambda>p. if fst p = x then (fst p, snd p + 1) else p) acc"
    have ca: "counter_add x acc = ?acc"
      using counter_add_canon[OF kx Cons.prems(2,3)] True by simp
    have step: "fold counter_add (x # xs) acc = fold counter_add xs ?acc"
      by (simp add: ca)
    have fst_acc: "map fst ?acc = map fst acc"
      by (induction acc) auto
    have ih: "fold counter_add xs ?acc =
       map (\<lambda>p. (fst p, snd p + count_list xs (fst p))) ?acc
       @ map (\<lambda>t. (t, count_list xs t)) (keep_first (map fst ?acc) xs)"
    proof (rule Cons.IH[OF k])
      show "\<forall>p\<in>set ?acc. key_of (fst p) = fst p" using Cons.prems(2) by auto
      show "distinct (map fst ?acc)" using Cons.prems(3) by (simp only: fst_acc)
    qed
    have e1: "map (\<lambda>p. (fst p, snd p + count_list xs (fst p))) ?acc
       = map (\<lambda>p. (fst p, snd p + count_list (x # xs) (fst p))) acc"
      by (induction acc) auto
    have "\<forall>t\<in>set (keep_first (map fst acc) xs). t \<noteq> x"
      using True k by (auto simp: set_keep_first)
    then have e2: "map (\<lambda>t. (t, count_list xs t)) (keep_first (map fst acc) xs)
       = map (\<lambda>t. (t, count_list (x # xs) t)) (keep_first (map fst acc) xs)"
      by (intro map_cong refl) auto
    have e3: "keep_first (map fst acc) (x # xs) = keep_first (map fst acc) xs"
      using True kx by simp
    show ?thesis by (simp only: step ih e1 fst_acc e2 e3)
  next
    case False
    let ?acc = "acc @ [(x, 1)]"
    have ca: "counter_add x acc = ?acc"
      using counter_add_canon[OF kx Cons.prems(2,3)] False by simp
    have step: "fold counter_add (x # xs) acc = fold counter_add xs ?acc"
      by (simp add: ca)
    have ih: "fold counter_add xs ?acc =
       map (\<lambda>p. (fst p, snd p + count_list xs (fst p))) ?acc
       @ map (\<lambda>t. (t, count_list xs t)) (keep_first (map fst ?acc) xs)"
    proof (rule Cons.IH[OF k])
      show "\<forall>p\<in>set ?acc. key_of (fst p) = fst p" using Cons.prems(2) kx by simp
      show "distinct (map fst ?acc)" using Cons.prems(3) False by simp
    qed
    have e0: "keep_first (map fst ?acc) xs = keep_first (x # map fst acc) xs"
      by (rule keep_first_set_seen) auto
    have "\<forall>p\<in>set acc. fst p \<noteq> x" using False by auto
    then have "map (\<lambda>p. (fst p, snd p + count_list xs (fst p))) acc
       = map (\<lambda>p. (fst p, snd p + count_list (x # xs) (fst p))) acc"
      by (intro map_cong refl) auto
    then have e1: "map (\<lambda>p. (fst p, snd p + count_list xs (fst p))) ?acc
       = map (\<lambda>p. (fst p, snd p + count_list (x # xs) (fst p))) acc @ [(x, count_list (x # xs) x)]"
      by simp
    have "\<forall>t\<in>set (keep_first (x # map fst acc) xs). t \<noteq> x"
      using k by (auto simp: set_keep_first)
    then have e2: "map (\<lambda>t. (t, count_list xs t)) (keep_first (x # map fst acc) xs)
       = map (\<lambda>t. (t, count_list (x # xs) t)) (keep_first (x # map fst acc) xs)"
      by (intro map_cong refl) auto
    have e3: "keep_first (map fst acc) (x # xs) = x # keep_first (x # map fst acc) xs"
      using False kx by simp
    show ?thesis by (simp only: step ih e0 e1 e2 e3 list.map append.assoc append.simps)
  qed
qed

lemma Counter_strings:
  assumes "\<forall>t\<in>set xs. is_str t"
  shows "Counter xs = Inr (map (\<lambda>t. (t, count_list xs t)) (set_first xs))"
proof -
  have "list_all hashable xs" using assms by (simp add: list_all_iff is_str_hashable)
  moreover have "fold counter_add xs [] = map (\<lambda>t. (t, count_list xs t)) (keep_first [] xs)"
    using fold_counter_add[of xs "[]"] assms by (simp add: is_str_key_of)
  ultimately show ?thesis by (simp add: Counter_def set_first_def)
qed

text \<open>
  A stable sort by one key of a list that is in the order of a second key sorts it by
  the pair of the keys.
\<close>

lemma insort_key_map:
  "insort_key f (h x) (map h xs) = map h (insort_key (\<lambda>y. f (h y)) x xs)"
  by (induction xs) simp_all

lemma sort_key_map:
  "sort_key f (map h xs) = map h (sort_key (\<lambda>y. f (h y)) xs)"
  by (induction xs) (simp_all add: insort_key_map)

lemma sorted_insort_key_pair:
  fixes f :: "'a \<Rightarrow> 'b::linorder" and g :: "'a \<Rightarrow> 'c::linorder"
  assumes "sorted (map (\<lambda>t. (f t, g t)) L)" and "\<forall>z\<in>set L. g y \<le> g z"
  shows "sorted (map (\<lambda>t. (f t, g t)) (insort_key f y L))"
  using assms
proof (induction L)
  case Nil
  then show ?case by simp
next
  case (Cons z L)
  show ?case
  proof (cases "f y \<le> f z")
    case True
    have "(f y, g y) \<le> (f z, g z)"
      using True Cons.prems(2) by (auto simp: less_eq_prod_def)
    moreover have "\<forall>w\<in>set L. (f z, g z) \<le> (f w, g w)"
      using Cons.prems(1) by auto
    ultimately have "\<forall>w\<in>set L. (f y, g y) \<le> (f w, g w)"
      by (meson order_trans)
    with True Cons.prems(1) \<open>(f y, g y) \<le> (f z, g z)\<close> show ?thesis by simp
  next
    case False
    then have "(f z, g z) \<le> (f y, g y)"
      by (auto simp: less_eq_prod_def)
    moreover have "sorted (map (\<lambda>t. (f t, g t)) (insort_key f y L))"
      using Cons by simp
    ultimately show ?thesis using False Cons.prems(1) by (auto simp: set_insort_key)
  qed
qed

lemma sorted_sort_key_pair:
  fixes f :: "'a \<Rightarrow> 'b::linorder" and g :: "'a \<Rightarrow> 'c::linorder"
  assumes "sorted_wrt (\<lambda>a b. g a < g b) ys"
  shows "sorted (map (\<lambda>t. (f t, g t)) (sort_key f ys))"
  using assms
proof (induction ys)
  case Nil
  then show ?case by simp
next
  case (Cons y ys)
  then have "sorted (map (\<lambda>t. (f t, g t)) (sort_key f ys))" by simp
  moreover have "\<forall>z\<in>set (sort_key f ys). g y \<le> g z"
    using Cons.prems by (auto simp: less_imp_le)
  ultimately show ?case
    by (simp add: sorted_insort_key_pair)
qed

lemma first_index_inj: "inj_on (first_index xs) (set xs)"
proof (induction xs)
  case Nil
  show ?case by simp
next
  case (Cons x xs)
  show ?case
  proof (rule inj_onI)
    fix a b assume ab: "a \<in> set (x # xs)" "b \<in> set (x # xs)"
      "first_index (x # xs) a = first_index (x # xs) b"
    show "a = b"
    proof (cases "a = x \<or> b = x")
      case True
      with ab show ?thesis by (auto simp: first_index_Cons split: if_splits)
    next
      case False
      with ab have "a \<in> set xs" "b \<in> set xs" "first_index xs a = first_index xs b"
        by (auto simp: first_index_Cons)
      with Cons show ?thesis by (auto dest: inj_onD)
    qed
  qed
qed

lemma most_common_strings:
  assumes "\<forall>t\<in>set xs. is_str t"
  shows "bind (Counter xs) (\<lambda>counts. Inr (most_common n counts))
           = Inr (take n (map (\<lambda>t. (t, count (mset xs) t))
                (sort_key (\<lambda>t. (- int (count (mset xs) t), first_index xs t)) (remdups xs))))"
proof -
  let ?F = "set_first xs"
  let ?f = "\<lambda>t. - int (count_list xs t)"
  let ?pk = "\<lambda>t. (?f t, first_index xs t)"
  have k: "\<forall>x\<in>set xs. key_of x = x" using assms by (simp add: is_str_key_of)
  have setF: "set ?F = set xs" using set_keep_first[OF k, of "[]"] by (simp add: set_first_def)
  have dF: "distinct ?F" using distinct_keep_first[OF k, of "[]"] by (simp add: set_first_def)
  have sF: "sorted_wrt (\<lambda>a b. first_index xs a < first_index xs b) ?F"
    using sorted_keep_first[OF k, of "[]"] by (simp add: set_first_def)
  have "mset (remdups xs) = mset (sort_key ?f ?F)"
    using set_eq_iff_mset_eq_distinct[of "remdups xs" ?F] dF setF by simp
  moreover have "inj_on ?pk (set (remdups xs))"
    using first_index_inj[of xs] by (auto simp: inj_on_def)
  moreover have "sorted (map ?pk (sort_key ?f ?F))"
    by (rule sorted_sort_key_pair[OF sF])
  ultimately have eq: "sort_key ?pk (remdups xs) = sort_key ?f ?F"
    by (rule sort_key_inj_key_eq)
  have "most_common n (map (\<lambda>t. (t, count_list xs t)) ?F)
      = take n (map (\<lambda>t. (t, count_list xs t)) (sort_key ?f ?F))"
    by (simp add: most_common_def sort_key_map)
  with eq show ?thesis
    by (simp add: Counter_strings[OF assms] count_mset)
qed

lemma length_mkset:
  assumes "set_constructor mkset"
  shows "length (mkset xs) = card (key_of ` set xs)"
proof -
  from assms have d: "distinct (map key_of (mkset xs))"
    and s: "set (map key_of (mkset xs)) = set (map key_of xs)"
    by (simp_all add: set_constructor_def)
  have "length (mkset xs) = length (map key_of (mkset xs))" by simp
  also have "\<dots> = card (set (map key_of (mkset xs)))" using d by (simp only: distinct_card)
  also have "\<dots> = card (key_of ` set xs)" using s by simp
  finally show ?thesis .
qed

lemma analyze_hashtags_strings:
  assumes "set_constructor mkset" and "''hashtags'' \<in> set (columns df)"
    and "\<forall>r\<in>set (rows df). \<forall>t\<in>set (hashtags r). is_str t"
  shows "analyze_hashtags mkset df = Inr (spec_hashtags (concat (map hashtags (rows df))))"
proof -
  let ?all = "concat (map hashtags (rows df))"
  have str: "\<forall>t\<in>set ?all. is_str t" using assms(3) by auto
  then have h: "list_all hashable ?all" by (simp add: list_all_iff is_str_hashable)
  have "key_of ` set ?all = set ?all"
    using str by (force simp: is_str_key_of)
  then have u: "length (mkset ?all) = card (set ?all)"
    using length_mkset[OF assms(1), of ?all] by simp
  from most_common_strings[OF str, of 10]
  obtain counts where c: "Counter ?all = Inr counts"
    "most_common 10 counts = spec_most_common ?all"
    by (auto simp: bind_Inr_iff spec_most_common_def)
  show ?thesis
    using assms(2) h u c
    by (simp add: analyze_hashtags_def column_def py_set_def spec_hashtags_def Let_def)
qed

text \<open>
  Claim C6. For every table with a column \<^verbatim>\<open>hashtags\<close> whose tags are strings, the hashtag
  block is the one of the specification over the flattened sequence of all tags:
  \<^verbatim>\<open>total_used\<close> its size as a multiset, \<^verbatim>\<open>unique_hashtags\<close> the number of distinct tags,
  \<^verbatim>\<open>most_common\<close> the ten most frequent tags with their counts, by falling count and,
  among equal counts, in the order of first occurrence. It is the block of every report
  that \<^verbatim>\<open>analyze_posts\<close> returns. The witness is the table of three rows with the tags
  \<open>[[a, b], [a], []]\<close>.
\<close>

theorem hashtags_block_refines_spec:
  assumes "set_constructor mkset" and "''hashtags'' \<in> set (columns df)"
    and "\<forall>r\<in>set (rows df). \<forall>t\<in>set (hashtags r). is_str t"
  shows "analyze_hashtags mkset df = Inr (spec_hashtags (concat (map hashtags (rows df))))
       \<and> (\<forall>rep. analyze_posts mkset df = Inr rep \<longrightarrow>
            hashtags_report rep = spec_hashtags (concat (map hashtags (rows df))))"
proof -
  have h: "analyze_hashtags mkset df = Inr (spec_hashtags (concat (map hashtags (rows df))))"
    by (rule analyze_hashtags_strings[OF assms])
  have "hashtags_report rep = spec_hashtags (concat (map hashtags (rows df)))"
    if "analyze_posts mkset df = Inr rep" for rep
    using that h by (auto simp: analyze_posts_def bind_Inr_iff)
  with h show ?thesis by blast
qed

lemma keep_first_keys: "set (map key_of (keep_first seen xs)) = key_of ` set xs - set seen"
  by (induction xs arbitrary: seen) auto

lemma keep_first_distinct_keys: "distinct (map key_of (keep_first seen xs))"
  by (induction xs arbitrary: seen) (auto simp: keep_first_keys simp del: set_map)

lemma set_constructor_set_first: "set_constructor set_first"
  using keep_first_keys[of "[]"] keep_first_distinct_keys[of "[]"]
  by (simp add: set_constructor_def set_first_def)

lemma set_constructor_set_last: "set_constructor set_last"
  using keep_first_keys[of "[]"] keep_first_distinct_keys[of "[]"]
  by (simp add: set_constructor_def set_last_def)

lemma example_table_tags:
  "map hashtags (rows example_table) = [[JStr ''a'', JStr ''b''], [JStr ''a''], []]"
  by (simp add: example_table_rows example_rows_def example_row_def)

theorem hashtags_block_refines_spec_witness:
  "set_constructor set_first
   \<and> ''hashtags'' \<in> set (columns example_table)
   \<and> list_all (\<lambda>r. list_all is_str (hashtags r)) (rows example_table)
   \<and> map hashtags (rows example_table) = [[JStr ''a'', JStr ''b''], [JStr ''a''], []]
   \<and> analyze_posts set_first example_table = Inr example_report
   \<and> hashtags_report example_report = spec_hashtags [JStr ''a'', JStr ''b'', JStr ''a'']
   \<and> spec_hashtags [JStr ''a'', JStr ''b'', JStr ''a'']
       = \<lparr>total_used = 3, unique_hashtags = 2,
          most_common_tags = [(JStr ''a'', 2), (JStr ''b'', 1)]\<rparr>"
proof -
  have c: "''hashtags'' \<in> set (columns example_table)"
    by (simp add: example_table_rows post_keys_def)
  have s: "\<forall>r\<in>set (rows example_table). \<forall>t\<in>set (hashtags r). is_str t"
    by (simp add: example_table_rows example_rows_def example_row_def)
  have v: "spec_hashtags [JStr ''a'', JStr ''b'', JStr ''a'']
       = \<lparr>total_used = 3, unique_hashtags = 2,
          most_common_tags = [(JStr ''a'', 2), (JStr ''b'', 1)]\<rparr>"
    by (simp add: spec_hashtags_def spec_most_common_def first_index_def less_eq_prod_def
        less_prod_def card_insert_if)
  from hashtags_block_refines_spec[OF set_constructor_set_first c s] example_analysis
  have "hashtags_report example_report = spec_hashtags [JStr ''a'', JStr ''b'', JStr ''a'']"
    by (simp add: example_table_tags)
  with c s v show ?thesis
    by (simp add: set_constructor_set_first example_table_tags example_analysis list_all_iff)
qed

section \<open>Determinism\<close>

lemma analyze_hashtags_any_set:
  assumes "set_constructor mkset1" and "set_constructor mkset2"
  shows "analyze_hashtags mkset1 df = analyze_hashtags mkset2 df"
proof (cases "column df ''hashtags'' hashtags")
  case (Inl e)
  then show ?thesis by (simp add: analyze_hashtags_def)
next
  case (Inr tagss)
  have len: "length (mkset1 (concat tagss)) = length (mkset2 (concat tagss))"
    using length_mkset[OF assms(1), of "concat tagss"] length_mkset[OF assms(2), of "concat tagss"]
    by simp
  show ?thesis
  proof (cases "list_all hashable (concat tagss)")
    case True
    with Inr len show ?thesis by (simp add: analyze_hashtags_def py_set_def Let_def)
  next
    case False
    with Inr show ?thesis by (simp add: analyze_hashtags_def py_set_def Let_def)
  qed
qed

text \<open>
  Claim C7. The report is a function of the table alone. The one thing in
  \<^verbatim>\<open>analyze_posts\<close> that differs between two runs of the interpreter on the same table is
  the order in which \<^verbatim>\<open>set(all_hashtags)\<close> holds its elements, and only the size of that
  set is used: for any two set constructors, so for any two runs and for the same run
  twice, the outcomes are equal.
\<close>

theorem analyze_posts_deterministic:
  assumes "set_constructor mkset1" and "set_constructor mkset2"
  shows "analyze_posts mkset1 df = analyze_posts mkset2 df"
  by (simp add: analyze_posts_def analyze_hashtags_any_set[OF assms])

theorem analyze_posts_deterministic_witness:
  "set_constructor set_first \<and> set_constructor set_last
   \<and> set_first [JStr ''a'', JStr ''b''] = [JStr ''a'', JStr ''b'']
   \<and> set_last [JStr ''a'', JStr ''b''] = [JStr ''b'', JStr ''a'']
   \<and> analyze_posts set_first example_table = Inr example_report
   \<and> analyze_posts set_last example_table = Inr example_report"
proof -
  from analyze_posts_deterministic[OF set_constructor_set_first set_constructor_set_last,
      of example_table] example_analysis
  have "analyze_posts set_last example_table = Inr example_report" by simp
  then show ?thesis
    by (simp add: set_constructor_set_first set_constructor_set_last example_analysis
        set_first_def set_last_def)
qed

end
